theory Spec2Isabelle
  imports Main
begin

section \<open>Strings\<close>

text \<open>
  A Python \<open>str\<close> is a sequence of Unicode code points, so a string is a list of code
  points here and \<open>length\<close> counts what \<open>len\<close> counts. \<open>codepoints\<close> reads an ASCII
  literal; the space character is code point 32.
\<close>

type_synonym pystr = "nat list"

definition codepoints :: "string \<Rightarrow> pystr" where
  "codepoints s = map of_char s"

text \<open>The characters \<open>str.isspace\<close> and \<open>str.strip\<close> treat as whitespace.\<close>

definition py_isspace :: "nat \<Rightarrow> bool" where
  "py_isspace c \<longleftrightarrow>
     (9 \<le> c \<and> c \<le> 13) \<or> (28 \<le> c \<and> c \<le> 32) \<or> c = 133 \<or> c = 160 \<or> c = 5760 \<or>
     (8192 \<le> c \<and> c \<le> 8202) \<or> c = 8232 \<or> c = 8233 \<or> c = 8239 \<or> c = 8287 \<or> c = 12288"

text \<open>\<open>s.strip()\<close>: whitespace removed from both ends.\<close>

definition py_strip :: "pystr \<Rightarrow> pystr" where
  "py_strip s = rev (dropWhile py_isspace (rev (dropWhile py_isspace s)))"

text \<open>\<open>s.isspace()\<close>: every character is whitespace and there is at least one.\<close>

definition py_str_isspace :: "pystr \<Rightarrow> bool" where
  "py_str_isspace s \<longleftrightarrow> s \<noteq> [] \<and> list_all py_isspace s"

section \<open>Exceptions\<close>

datatype exc =
    PoolError
  | UnboundLocalError
  | KeyError
  | AttributeError
  | OverflowError
  | ValueError
  | UnicodeEncodeError
  | OperationalError
  | UniqueViolation
  | NumericValueOutOfRange
  | SequenceGeneratorLimitExceeded

text \<open>
  The database driver adapting a string that is a parameter of a query: the string is
  encoded as UTF-8, which a lone surrogate refuses, and then quoted, which a NUL
  character refuses. Neither reaches the server.
\<close>

definition adapt_str :: "pystr \<Rightarrow> exc + pystr" where
  "adapt_str s =
     (if list_ex (\<lambda>c. 55296 \<le> c \<and> c \<le> 57343) s then Inl UnicodeEncodeError
      else if list_ex (\<lambda>c. c = 0) s then Inl ValueError
      else Inr s)"

section \<open>House-name formatting (the first half of \<open>create_house\<close>)\<close>

text \<open>
  The inner loop of \<open>create_house\<close>:
  \<^verbatim>\<open>while i+1 < len(stripped_name) and stripped_name[i+1] == " ": i += 1\<close>
  returns the index it stops at.
\<close>

function skip_spaces :: "pystr \<Rightarrow> nat \<Rightarrow> nat" where
  "skip_spaces s i = (if i + 1 < length s \<and> s ! (i + 1) = 32 then skip_spaces s (i + 1) else i)"
  by pat_completeness auto
termination
  by (relation "measure (\<lambda>(s, i). length s - i)") auto

declare skip_spaces.simps [simp del]

text \<open>
  The outer loop, with \<open>i\<close> the index and \<open>acc\<close> the value of \<open>formatted_name\<close>:
  \<^verbatim>\<open>
  while i < len(stripped_name):
      if stripped_name[i] == " ":
          formatted_name += " "
          while i+1 < len(stripped_name) and stripped_name[i+1] == " ":
              i += 1
      else:
          formatted_name += stripped_name[i]
      i += 1
  \<close>
  Every index read is below the length, so no read is out of range.
\<close>

function format_loop :: "pystr \<Rightarrow> nat \<Rightarrow> pystr \<Rightarrow> pystr" where
  "format_loop s i acc =
     (if i < length s then
        (if s ! i = 32 then format_loop s (skip_spaces s i + 1) (acc @ [32])
         else format_loop s (i + 1) (acc @ [s ! i]))
      else acc)"
  by pat_completeness auto
termination
proof (relation "measure (\<lambda>(s, i, acc). length s - i)")
  show "wf (measure (\<lambda>(s, i, acc). length s - i))" by simp
next
  fix s :: pystr and i :: nat and acc :: pystr
  have ge: "j \<le> skip_spaces t j" for t j
    by (induction t j rule: skip_spaces.induct) (subst skip_spaces.simps, auto)
  assume "i < length s" "s ! i = 32"
  moreover have "i \<le> skip_spaces s i" by (rule ge)
  ultimately show "((s, skip_spaces s i + 1, acc @ [32]), (s, i, acc))
      \<in> measure (\<lambda>(s, i, acc). length s - i)"
    by simp
next
  fix s :: pystr and i :: nat and acc :: pystr
  assume "i < length s" "s ! i \<noteq> 32"
  then show "((s, i + 1, acc @ [s ! i]), (s, i, acc)) \<in> measure (\<lambda>(s, i, acc). length s - i)"
    by simp
qed

declare format_loop.simps [simp del]

text \<open>\<open>formatted_name\<close> as \<open>create_house\<close> computes it from its argument \<open>house_name\<close>.\<close>

definition format_name :: "pystr \<Rightarrow> pystr" where
  "format_name house_name = format_loop (py_strip house_name) 0 []"

text \<open>
  The specification's words, for comparison with the loop: every run of space characters
  is collapsed to a single space, that is, a space followed by a space is dropped.
\<close>

fun collapse :: "pystr \<Rightarrow> pystr" where
  "collapse (a # b # cs) =
     (if a = 32 \<and> b = 32 then collapse (b # cs) else a # collapse (b # cs))"
| "collapse cs = cs"

section \<open>Timestamps and \<open>day_rounder\<close>\<close>

text \<open>
  A naive \<open>datetime\<close>. The date is held as its proleptic Gregorian ordinal, the number
  \<open>date.toordinal()\<close> returns (1 is 0001-01-01, 3652059 is 9999-12-31, the last date the
  type has): adding a \<open>timedelta\<close> of whole days adds to the ordinal, and raises
  \<open>OverflowError\<close> when the result leaves the range.
\<close>

record datetime =
  ordinal :: nat
  hour :: nat
  minute :: nat
  second :: nat
  microsecond :: nat

definition MAXORDINAL :: nat where
  "MAXORDINAL = 3652059"

definition valid_datetime :: "datetime \<Rightarrow> bool" where
  "valid_datetime t \<longleftrightarrow>
     1 \<le> ordinal t \<and> ordinal t \<le> MAXORDINAL \<and> hour t < 24 \<and> minute t < 60 \<and> second t < 60
     \<and> microsecond t < 1000000"

text \<open>\<open>t.replace(hour=0, minute=0, second=0, microsecond=0)\<close>\<close>

definition replace_midnight :: "datetime \<Rightarrow> datetime" where
  "replace_midnight t = t\<lparr>hour := 0, minute := 0, second := 0, microsecond := 0\<rparr>"

text \<open>\<open>t + timedelta(days=n)\<close>\<close>

definition add_days :: "datetime \<Rightarrow> nat \<Rightarrow> exc + datetime" where
  "add_days t n =
     (if 0 < ordinal t + n \<and> ordinal t + n \<le> MAXORDINAL then Inr (t\<lparr>ordinal := ordinal t + n\<rparr>)
      else Inl OverflowError)"

definition day_rounder :: "datetime \<Rightarrow> exc + datetime" where
  "day_rounder t =
     (if hour t < 12 \<or> (hour t = 12 \<and> minute t = 0 \<and> second t = 0 \<and> microsecond t = 0)
      then Inr (replace_midnight t)
      else add_days (replace_midnight t) 1)"

text \<open>
  For stating distances: the microseconds from the start of ordinal day 0 to \<open>t\<close>, the
  instant exactly at noon, and the midnight that starts the day after \<open>t\<close>'s.
\<close>

definition to_microseconds :: "datetime \<Rightarrow> int" where
  "to_microseconds t =
     int ((((ordinal t * 24 + hour t) * 60 + minute t) * 60 + second t) * 1000000 + microsecond t)"

definition at_noon :: "datetime \<Rightarrow> bool" where
  "at_noon t \<longleftrightarrow> hour t = 12 \<and> minute t = 0 \<and> second t = 0 \<and> microsecond t = 0"

definition next_midnight :: "datetime \<Rightarrow> datetime" where
  "next_midnight t = (replace_midnight t)\<lparr>ordinal := ordinal t + 1\<rparr>"

section \<open>The relational store\<close>

text \<open>
  The five tables, each a list of rows in insertion order. The schema (the DDL) is not
  part of the sources, so what the code depends on is a parameter of the store:
  \<^item> keys are integers, and \<open>key_max\<close> is the largest value the key columns hold
    (2147483647 for \<open>INTEGER\<close>); a value outside the range is refused on insert;
  \<^item> \<open>next_user_id\<close> and \<open>next_house_id\<close> are the sequences of the two serial keys; a
    sequence is not part of any transaction, so a value taken from it stays taken when
    the statement fails or the transaction is rolled back;
  \<^item> \<open>unique_house_name\<close> says whether \<open>houses.house_name\<close> is declared unique, the one
    constraint the specification names for an insert;
  \<^item> a join or a \<open>DISTINCT\<close> has no \<open>ORDER BY\<close> in any query, so the order of its rows
    is the server's choice: the rows come sorted by a key of the server's, any key.
  No other constraint is assumed.
\<close>

record user_row =
  u_id :: int
  u_username :: pystr
  u_email :: pystr

record house_row =
  h_house_id :: int
  h_house_name :: pystr

record user_house_row =
  uh_user_id :: int
  uh_house_id :: int

record task_row =
  t_task_id :: int
  t_task_name :: pystr
  t_user_id :: int
  t_house_id :: int
  t_added_timestamp :: datetime
  t_due_date :: datetime

record restriction_row =
  r_house_id :: int
  r_user_id :: int
  r_diet_restrictions :: pystr
  r_schedule_restrictions :: pystr

record db =
  users :: "user_row list"
  houses :: "house_row list"
  user_houses :: "user_house_row list"
  tasks :: "task_row list"
  restrictions :: "restriction_row list"
  next_user_id :: int
  next_house_id :: int
  key_max :: int
  unique_house_name :: bool
  members_order :: "user_row \<times> user_house_row \<Rightarrow> nat"
  user_houses_order :: "user_house_row \<times> house_row option \<Rightarrow> nat"
  houses_to_join_order :: "pystr \<times> int \<Rightarrow> nat"

definition in_key_range :: "db \<Rightarrow> int \<Rightarrow> bool" where
  "in_key_range d i \<longleftrightarrow> - key_max d - 1 \<le> i \<and> i \<le> key_max d"

text \<open>
  What a rollback leaves of the work of a transaction: the tables are those last
  committed, the sequences stay where the transaction left them.
\<close>

definition rollback :: "db \<Rightarrow> db \<Rightarrow> db" where
  "rollback committed working =
     committed\<lparr>next_user_id := next_user_id working, next_house_id := next_house_id working\<rparr>"

text \<open>Two states with the same rows in every table.\<close>

definition same_tables :: "db \<Rightarrow> db \<Rightarrow> bool" where
  "same_tables a b \<longleftrightarrow>
     users a = users b \<and> houses a = houses b \<and> user_houses a = user_houses b
     \<and> tasks a = tasks b \<and> restrictions a = restrictions b"

text \<open>
  The statements run on a cursor: from the contents they find they give an exception or
  a result, and the contents as they leave them. \<open>with_str\<close> is the driver adapting a
  string parameter before the query is sent, \<open>with_key\<close> the server refusing a key
  outside the column's range in an \<open>INSERT\<close>.
\<close>

type_synonym 'a statements = "db \<Rightarrow> (exc + 'a) \<times> db"

definition with_str :: "pystr \<Rightarrow> (pystr \<Rightarrow> 'a statements) \<Rightarrow> 'a statements" where
  "with_str s f d = (case adapt_str s of Inl e \<Rightarrow> (Inl e, d) | Inr s' \<Rightarrow> f s' d)"

definition with_key :: "int \<Rightarrow> 'a statements \<Rightarrow> 'a statements" where
  "with_key i f d = (if in_key_range d i then f d else (Inl NumericValueOutOfRange, d))"

section \<open>The connection pool and the two context managers\<close>

text \<open>
  \<open>ThreadedConnectionPool(minconn, maxconn, dsn)\<close> of the database driver, as far as the
  code depends on it: \<open>getconn\<close> hands out a connection unless \<open>maxconn\<close> are in use, when
  it raises \<open>PoolError\<close>; \<open>putconn\<close> takes one back and rolls back what it had not
  committed.
\<close>

record pool_state =
  minconn :: nat
  maxconn :: nat
  dsn :: pystr
  in_use :: nat

definition getconn :: "pool_state \<Rightarrow> exc + pool_state" where
  "getconn p = (if in_use p < maxconn p then Inr (p\<lparr>in_use := in_use p + 1\<rparr>) else Inl PoolError)"

definition putconn :: "pool_state \<Rightarrow> pool_state" where
  "putconn p = p\<lparr>in_use := in_use p - 1\<rparr>"

text \<open>
  The process state: the module-level \<open>pool\<close> (\<open>None\<close> until \<open>setup()\<close> has run), the
  contents of the database, and, as a ghost field, every state a
  \<open>connection.commit()\<close> has made visible to other connections, oldest first.
\<close>

record world =
  gpool :: "pool_state option"
  store :: db
  commits :: "db list"

type_synonym 'a op = "world \<Rightarrow> (exc + 'a) \<times> world"

definition return_op :: "'a \<Rightarrow> 'a op" where
  "return_op a w = (Inr a, w)"

definition raise_op :: "exc \<Rightarrow> 'a op" where
  "raise_op e w = (Inl e, w)"

text \<open>One statement after another; an exception ends the sequence.\<close>

definition bind_op :: "'a op \<Rightarrow> ('a \<Rightarrow> 'b op) \<Rightarrow> 'b op" where
  "bind_op m f w = (case m w of (Inl e, w1) \<Rightarrow> (Inl e, w1) | (Inr a, w1) \<Rightarrow> f a w1)"

text \<open>
  \<^verbatim>\<open>
  def setup():
      global pool
      DATABASE_URL = os.environ['DATABASE_URL']
      pool = ThreadedConnectionPool(1, 100, dsn=DATABASE_URL, sslmode='require')
  \<close>
  \<open>environ\<close> is the process environment. The constructor opens the first \<open>minconn\<close>
  connections itself; \<open>connect\<close> says what opening a connection to a DSN gives, an
  exception (a malformed DSN, a server that cannot be reached) or a connection. When it
  raises, the assignment does not happen and \<open>pool\<close> stays what it was.
\<close>

definition setup_pool :: "(pystr \<rightharpoonup> pystr) \<Rightarrow> (pystr \<Rightarrow> exc + unit) \<Rightarrow> unit op" where
  "setup_pool environ connect w =
     (case environ (codepoints ''DATABASE_URL'') of
        None \<Rightarrow> (Inl KeyError, w)
      | Some url \<Rightarrow>
          (case connect url of
             Inl e \<Rightarrow> (Inl e, w)
           | Inr _ \<Rightarrow>
               (Inr (), w\<lparr>gpool := Some \<lparr>minconn = 1, maxconn = 100, dsn = url, in_use = 0\<rparr>\<rparr>)))"

text \<open>
  \<^verbatim>\<open>
  @contextmanager
  def get_db_connection():
      try:
          connection = pool.getconn()
          yield connection
      finally:
          pool.putconn(connection)
  \<close>
  \<open>body\<close> is the block run under \<open>with\<close>; its result may be an exception. While \<open>pool\<close>
  is \<open>None\<close>, \<open>pool.getconn\<close> raises \<open>AttributeError\<close> and so does \<open>pool.putconn\<close> in
  the \<open>finally\<close> clause. When \<open>getconn\<close> raises, \<open>connection\<close> is unbound in the
  \<open>finally\<close> clause, and the exception that leaves the function is \<open>UnboundLocalError\<close>.
\<close>

definition get_db_connection :: "'a op \<Rightarrow> 'a op" where
  "get_db_connection body w =
     (case gpool w of
        None \<Rightarrow> (Inl AttributeError, w)
      | Some p \<Rightarrow>
          (case getconn p of
             Inl e \<Rightarrow> (Inl UnboundLocalError, w)
           | Inr p1 \<Rightarrow>
               (case body (w\<lparr>gpool := Some p1\<rparr>) of
                  (r, w1) \<Rightarrow> (r, w1\<lparr>gpool := map_option putconn (gpool w1)\<rparr>))))"

text \<open>
  \<^verbatim>\<open>
  @contextmanager
  def get_db_cursor(commit=False):
      with get_db_connection() as connection:
          cursor = connection.cursor(cursor_factory=DictCursor)
          try:
              yield cursor
              if commit:
                  connection.commit()
          finally:
              cursor.close()
  \<close>
  \<open>body\<close> is the block of statements run on the cursor. Without a commit (no \<open>commit\<close>,
  or an exception before it) the work of the transaction is rolled back when the
  connection goes back to the pool.
\<close>

definition get_db_cursor :: "bool \<Rightarrow> 'a statements \<Rightarrow> 'a op" where
  "get_db_cursor commit body =
     get_db_connection (\<lambda>w.
       case body (store w) of
         (Inl e, d) \<Rightarrow> (Inl e, w\<lparr>store := rollback (store w) d\<rparr>)
       | (Inr r, d) \<Rightarrow>
           (Inr r, if commit then w\<lparr>store := d, commits := commits w @ [d]\<rparr>
                   else w\<lparr>store := rollback (store w) d\<rparr>))"

definition pool_ready :: "world \<Rightarrow> bool" where
  "pool_ready w = (case gpool w of None \<Rightarrow> False | Some p \<Rightarrow> in_use p < maxconn p)"

section \<open>The data-access functions\<close>

definition create_user_account :: "pystr \<Rightarrow> pystr \<Rightarrow> unit op" where
  "create_user_account username email =
     get_db_cursor True
       (with_str username (\<lambda>username'. with_str email (\<lambda>email' d.
          if key_max d < next_user_id d then (Inl SequenceGeneratorLimitExceeded, d)
          else (Inr (), d\<lparr>users := users d @
                   [\<lparr>u_id = next_user_id d, u_username = username', u_email = email'\<rparr>],
                 next_user_id := next_user_id d + 1\<rparr>))))"

definition check_user_exists :: "pystr \<Rightarrow> pystr option op" where
  "check_user_exists email =
     get_db_cursor False (with_str email (\<lambda>email' d.
       (Inr (map_option u_username (find (\<lambda>u. u_email u = email') (users d))), d)))"

text \<open>
  \<open>create_house\<close>: the name is formatted (\<open>format_name\<close> above), then one committing
  cursor runs two statements. The first inserts the house and returns its \<open>house_id\<close>:
  the sequence gives the id, then the unique constraint, where there is one, is
  checked. The second inserts the creator's membership.
\<close>

definition create_house :: "pystr \<Rightarrow> int \<Rightarrow> unit op" where
  "create_house house_name creator_id =
     (let formatted_name = format_name house_name in
      get_db_cursor True (with_str formatted_name (\<lambda>formatted_name' d.
        if key_max d < next_house_id d then (Inl SequenceGeneratorLimitExceeded, d)
        else
          (let house_id = next_house_id d;
               d0 = d\<lparr>next_house_id := house_id + 1\<rparr>
           in if unique_house_name d0 \<and> (\<exists>h \<in> set (houses d0). h_house_name h = formatted_name')
              then (Inl UniqueViolation, d0)
              else
                (let d1 = d0\<lparr>houses := houses d0 @
                                [\<lparr>h_house_id = house_id, h_house_name = formatted_name'\<rparr>]\<rparr>
                 in with_key creator_id (\<lambda>d1.
                      (Inr (), d1\<lparr>user_houses := user_houses d1 @
                                    [\<lparr>uh_user_id = creator_id, uh_house_id = house_id\<rparr>]\<rparr>)) d1)))))"

definition check_house_exists :: "pystr \<Rightarrow> house_row option op" where
  "check_house_exists house_name =
     get_db_cursor False (with_str house_name (\<lambda>house_name' d.
       (Inr (find (\<lambda>h. h_house_name h = house_name') (houses d)), d)))"

definition get_houses :: "(pystr \<times> int) list op" where
  "get_houses =
     get_db_cursor False (\<lambda>d. (Inr (map (\<lambda>h. (h_house_name h, h_house_id h)) (houses d)), d))"

text \<open>
  \<open>SELECT DISTINCT house_name, house_id FROM houses LEFT JOIN user_houses USING (house_id)
  WHERE house_id NOT IN (SELECT house_id FROM user_houses WHERE user_id = %s)\<close>: the
  columns come from \<open>houses\<close> alone, so under \<open>DISTINCT\<close> the join adds nothing.
\<close>

definition get_houses_to_join :: "int \<Rightarrow> (pystr \<times> int) list op" where
  "get_houses_to_join user_id =
     get_db_cursor False (\<lambda>d.
       (Inr (sort_key (houses_to_join_order d)
              (remdups (map (\<lambda>h. (h_house_name h, h_house_id h))
                (filter (\<lambda>h. h_house_id h \<notin>
                           set (map uh_house_id (filter (\<lambda>uh. uh_user_id uh = user_id) (user_houses d))))
                   (houses d))))), d))"

definition get_user_id :: "pystr \<Rightarrow> int option op" where
  "get_user_id user_email =
     get_db_cursor False (with_str user_email (\<lambda>user_email' d.
       (Inr (map_option u_id (find (\<lambda>u. u_email u = user_email') (users d))), d)))"

text \<open>
  \<open>SELECT house_name, house_id FROM user_houses LEFT JOIN houses USING (house_id)
  WHERE user_id = %s\<close>: a membership whose house is missing gives a row with a null name.
\<close>

definition get_user_houses :: "int \<Rightarrow> (pystr option \<times> int) list op" where
  "get_user_houses user_id =
     get_db_cursor False (\<lambda>d.
       (Inr (map (\<lambda>(uh, h). (map_option h_house_name h, uh_house_id uh))
              (sort_key (user_houses_order d)
                (concat (map (\<lambda>uh.
                   (case filter (\<lambda>h. h_house_id h = uh_house_id uh) (houses d) of
                      [] \<Rightarrow> [(uh, None)]
                    | hs \<Rightarrow> map (\<lambda>h. (uh, Some h)) hs))
                   (filter (\<lambda>uh. uh_user_id uh = user_id) (user_houses d)))))), d))"

definition add_user_house :: "int \<Rightarrow> int \<Rightarrow> unit op" where
  "add_user_house user_id house_id =
     get_db_cursor True (with_key user_id (with_key house_id (\<lambda>d.
       (Inr (), d\<lparr>user_houses := user_houses d @ [\<lparr>uh_user_id = user_id, uh_house_id = house_id\<rparr>]\<rparr>))))"

definition remove_user_house :: "int \<Rightarrow> int \<Rightarrow> unit op" where
  "remove_user_house user_id house_id =
     get_db_cursor True (\<lambda>d.
       (Inr (), d\<lparr>user_houses :=
                    filter (\<lambda>uh. \<not> (uh_user_id uh = user_id \<and> uh_house_id uh = house_id))
                      (user_houses d)\<rparr>))"

text \<open>
  The rows of \<open>... FROM users u JOIN user_houses uh ON u.id = uh.user_id
  WHERE uh.house_id = %s\<close>: one per pair of a user and a membership of the house with
  the user's id, in the server's order; \<open>member_rows\<close> are the users of these pairs.
\<close>

definition member_rows :: "db \<Rightarrow> int \<Rightarrow> user_row list" where
  "member_rows d house_id =
     map fst (sort_key (members_order d)
       (concat (map (\<lambda>uh. map (\<lambda>u. (u, uh)) (filter (\<lambda>u. u_id u = uh_user_id uh) (users d)))
                  (filter (\<lambda>uh. uh_house_id uh = house_id) (user_houses d)))))"

definition get_house_members :: "int \<Rightarrow> pystr list op" where
  "get_house_members house_id =
     get_db_cursor False (\<lambda>d.
       let members = member_rows d house_id in
       (Inr (if members \<noteq> [] then map u_username members else [codepoints ''No members'']), d))"

definition leave_house :: "int \<Rightarrow> int \<Rightarrow> unit op" where
  "leave_house user_id house_id =
     get_db_cursor True (\<lambda>d.
       let d1 = d\<lparr>user_houses :=
                    filter (\<lambda>uh. \<not> (uh_user_id uh = user_id \<and> uh_house_id uh = house_id))
                      (user_houses d)\<rparr>;
           count = length (filter (\<lambda>uh. uh_house_id uh = house_id) (user_houses d1))
       in if count = 0
          then (Inr (), d1\<lparr>houses := filter (\<lambda>h. h_house_id h \<noteq> house_id) (houses d1)\<rparr>)
          else (Inr (), d1))"

definition delete_tasks_by_house :: "int \<Rightarrow> unit op" where
  "delete_tasks_by_house house_id =
     get_db_cursor True (\<lambda>d.
       (Inr (), d\<lparr>tasks := filter (\<lambda>t. t_house_id t \<noteq> house_id) (tasks d)\<rparr>))"

definition is_last_member :: "int \<Rightarrow> bool op" where
  "is_last_member house_id =
     get_db_cursor False (\<lambda>d.
       let num_members = length (filter (\<lambda>uh. uh_house_id uh = house_id) (user_houses d))
       in (Inr (num_members = 1), d))"

definition delete_house :: "int \<Rightarrow> unit op" where
  "delete_house house_id =
     get_db_cursor True (\<lambda>d.
       (Inr (), d\<lparr>houses := filter (\<lambda>h. h_house_id h \<noteq> house_id) (houses d)\<rparr>))"

text \<open>
  \<open>{member[1]: member[0] for member in members}\<close>: a later row replaces an earlier one
  with the same username.
\<close>

definition get_member_id_dict :: "int \<Rightarrow> (pystr \<rightharpoonup> int) op" where
  "get_member_id_dict house_id =
     get_db_cursor False (\<lambda>d.
       (Inr (map_of (rev (map (\<lambda>u. (u_username u, u_id u)) (member_rows d house_id)))), d))"

definition get_house_name_by_id :: "int \<Rightarrow> pystr option op" where
  "get_house_name_by_id house_id =
     get_db_cursor False (\<lambda>d.
       case find (\<lambda>h. h_house_id h = house_id) (houses d) of
         Some result \<Rightarrow> (Inr (Some (h_house_name result)), d)
       | None \<Rightarrow> (Inr None, d))"

definition get_user_by_id :: "int \<Rightarrow> pystr option op" where
  "get_user_by_id user_id =
     get_db_cursor False (\<lambda>d.
       (Inr (map_option u_username (find (\<lambda>u. u_id u = user_id) (users d))), d))"

definition delete_restrictions_by_house :: "int \<Rightarrow> unit op" where
  "delete_restrictions_by_house house_id =
     get_db_cursor True (\<lambda>d.
       (Inr (), d\<lparr>restrictions := filter (\<lambda>r. r_house_id r \<noteq> house_id) (restrictions d)\<rparr>))"

definition get_tasks_by_house_id :: "int \<Rightarrow> task_row list op" where
  "get_tasks_by_house_id house_id =
     get_db_cursor False (\<lambda>d. (Inr (filter (\<lambda>t. t_house_id t = house_id) (tasks d)), d))"

text \<open>
  \<open>get_tasks_with_due_dates\<close>; \<open>fmt\<close> stands for
  \<open>strftime("%m/%d, %I:%M%p").replace(" 0", " ")\<close>.
\<close>

definition get_tasks_with_due_dates :: "(datetime \<Rightarrow> pystr) \<Rightarrow> int \<Rightarrow> (int \<times> pystr) list op" where
  "get_tasks_with_due_dates fmt house_id =
     bind_op (get_tasks_by_house_id house_id) (\<lambda>tasks.
       return_op (map (\<lambda>task.
         (t_task_id task, t_task_name task @ codepoints '' due '' @ fmt (t_due_date task))) tasks))"

definition get_restrictions :: "int \<Rightarrow> restriction_row list op" where
  "get_restrictions house_id =
     get_db_cursor False (\<lambda>d. (Inr (filter (\<lambda>r. r_house_id r = house_id) (restrictions d)), d))"

section \<open>The request handlers\<close>

datatype response = Redirect string | Json_ok

text \<open>
  The \<open>POST\<close> branch of \<open>user_home\<close>. \<open>form_house_name\<close> is
  \<open>request.form.get("house-name")\<close> and \<open>session_user_id\<close> is \<open>session["user_id"]\<close>,
  each \<open>None\<close> when absent.
\<close>

definition user_home :: "pystr option \<Rightarrow> int option \<Rightarrow> response op" where
  "user_home form_house_name session_user_id =
     (case form_house_name of
        None \<Rightarrow> raise_op AttributeError
      | Some raw \<Rightarrow>
          (let house_name = py_strip raw in
           if py_str_isspace house_name \<or> house_name = [] then return_op (Redirect ''/user/home'')
           else if length house_name \<le> 20 then
             bind_op (check_house_exists house_name) (\<lambda>found.
               bind_op (if found = None
                        then (case session_user_id of
                                None \<Rightarrow> raise_op KeyError
                              | Some user_id \<Rightarrow> create_house house_name user_id)
                        else return_op ()) (\<lambda>_.
                 return_op (Redirect ''/user/home#load-section'')))
           else return_op (Redirect ''/user/home'')))"

text \<open>The handler of \<open>/join-house\<close>, for an integer \<open>house_id\<close> in the request.\<close>

definition join_house :: "int \<Rightarrow> int \<Rightarrow> response op" where
  "join_house session_user_id house_id =
     bind_op (add_user_house session_user_id house_id) (\<lambda>_. return_op Json_ok)"

text \<open>
  \<^verbatim>\<open>
  def leave_house_route():
      ...
      if is_last_member(house_id):
          delete_tasks_by_house(house_id)
          delete_restrictions_by_house(house_id)
      leave_house(user_id, house_id)
      if is_last_member(house_id):
          delete_house(house_id)
      return jsonify({"result": "ok"})
  \<close>
  \<open>user_id\<close> is the session's user id and \<open>house_id\<close> the id sent with the request, both
  integer keys.
\<close>

definition leave_house_route :: "int \<Rightarrow> int \<Rightarrow> response op" where
  "leave_house_route user_id house_id =
     bind_op (is_last_member house_id) (\<lambda>last.
       bind_op (if last
                then bind_op (delete_tasks_by_house house_id) (\<lambda>_.
                       delete_restrictions_by_house house_id)
                else return_op ()) (\<lambda>_.
         bind_op (leave_house user_id house_id) (\<lambda>_.
           bind_op (is_last_member house_id) (\<lambda>last_again.
             bind_op (if last_again then delete_house house_id else return_op ()) (\<lambda>_.
               return_op Json_ok)))))"

section \<open>States used as examples\<close>

text \<open>
  An environment that asks for other pool bounds, a server that can be reached and one
  that cannot, an empty store, a process before \<open>setup()\<close>, and stores with one house,
  \<open>Maple St\<close>, whose member is \<open>alice\<close> (or a user named \<open>No members\<close>), who holds one
  membership row or two, with a second house of the same name, and with a second member
  \<open>bob\<close>.
\<close>

definition example_environ :: "pystr \<rightharpoonup> pystr" where
  "example_environ =
     [codepoints ''DATABASE_URL'' \<mapsto> codepoints ''postgres://db/roomhub'',
      codepoints ''DB_POOL_MIN'' \<mapsto> codepoints ''2'',
      codepoints ''DB_POOL_MAX'' \<mapsto> codepoints ''5'']"

definition reachable :: "pystr \<Rightarrow> exc + unit" where
  "reachable url = Inr ()"

definition unreachable :: "pystr \<Rightarrow> exc + unit" where
  "unreachable url = Inl OperationalError"

definition empty_db :: db where
  "empty_db = \<lparr>users = [], houses = [], user_houses = [], tasks = [], restrictions = [],
              next_user_id = 1, next_house_id = 1, key_max = 2147483647,
              unique_house_name = False,
              members_order = (\<lambda>_. 0), user_houses_order = (\<lambda>_. 0),
              houses_to_join_order = (\<lambda>_. 0)\<rparr>"

definition fresh_world :: world where
  "fresh_world = \<lparr>gpool = None, store = empty_db, commits = []\<rparr>"

text \<open>A process whose pool has been set up and has every connection free.\<close>

definition ready_world :: "db \<Rightarrow> world" where
  "ready_world d =
     \<lparr>gpool = Some \<lparr>minconn = 1, maxconn = 100, dsn = codepoints ''postgres://db/roomhub'', in_use = 0\<rparr>,
      store = d, commits = []\<rparr>"

definition maple_db :: db where
  "maple_db = empty_db
     \<lparr>users := [\<lparr>u_id = 1, u_username = codepoints ''alice'', u_email = codepoints ''alice@x.com''\<rparr>],
      houses := [\<lparr>h_house_id = 1, h_house_name = codepoints ''Maple St''\<rparr>],
      user_houses := [\<lparr>uh_user_id = 1, uh_house_id = 1\<rparr>],
      tasks := [\<lparr>t_task_id = 1, t_task_name = codepoints ''dishes'', t_user_id = 1, t_house_id = 1,
                t_added_timestamp = \<lparr>ordinal = 739000, hour = 9, minute = 0, second = 0, microsecond = 0\<rparr>,
                t_due_date = \<lparr>ordinal = 739001, hour = 18, minute = 30, second = 0, microsecond = 0\<rparr>\<rparr>],
      restrictions := [\<lparr>r_house_id = 1, r_user_id = 1, r_diet_restrictions = codepoints ''vegan'',
                       r_schedule_restrictions = codepoints ''none''\<rparr>],
      next_user_id := 2, next_house_id := 2\<rparr>"

definition alice :: user_row where
  "alice = \<lparr>u_id = 1, u_username = codepoints ''alice'', u_email = codepoints ''alice@x.com''\<rparr>"

definition sentinel_db :: db where
  "sentinel_db = empty_db
     \<lparr>users := [\<lparr>u_id = 1, u_username = codepoints ''No members'', u_email = codepoints ''nm@x.com''\<rparr>],
      houses := [\<lparr>h_house_id = 1, h_house_name = codepoints ''Maple St''\<rparr>],
      user_houses := [\<lparr>uh_user_id = 1, uh_house_id = 1\<rparr>],
      next_user_id := 2, next_house_id := 2\<rparr>"

definition twice_db :: db where
  "twice_db = maple_db\<lparr>user_houses :=
     [\<lparr>uh_user_id = 1, uh_house_id = 1\<rparr>, \<lparr>uh_user_id = 1, uh_house_id = 1\<rparr>]\<rparr>"

definition namesake_db :: db where
  "namesake_db = maple_db\<lparr>houses :=
       [\<lparr>h_house_id = 1, h_house_name = codepoints ''Maple St''\<rparr>,
        \<lparr>h_house_id = 2, h_house_name = codepoints ''Maple St''\<rparr>],
     user_houses := [\<lparr>uh_user_id = 1, uh_house_id = 1\<rparr>, \<lparr>uh_user_id = 2, uh_house_id = 2\<rparr>]\<rparr>"

definition shared_db :: db where
  "shared_db = maple_db\<lparr>users :=
       [\<lparr>u_id = 1, u_username = codepoints ''alice'', u_email = codepoints ''alice@x.com''\<rparr>,
        \<lparr>u_id = 2, u_username = codepoints ''bob'', u_email = codepoints ''bob@x.com''\<rparr>],
     user_houses := [\<lparr>uh_user_id = 1, uh_house_id = 1\<rparr>, \<lparr>uh_user_id = 2, uh_house_id = 1\<rparr>],
     next_user_id := 3\<rparr>"

section \<open>The formatting loop against the specification\<close>

lemma skip_spaces_lt: "i < length s \<Longrightarrow> skip_spaces s i < length s"
  by (induction s i rule: skip_spaces.induct) (subst skip_spaces.simps, auto)

lemma collapse_space: "collapse (32 # cs) = 32 # collapse (dropWhile (\<lambda>x. x = 32) cs)"
  by (induction cs) auto

lemma collapse_nonspace: "c \<noteq> 32 \<Longrightarrow> collapse (c # cs) = c # collapse cs"
  by (cases cs) auto

lemma drop_skip_spaces:
  "i < length s \<Longrightarrow> drop (skip_spaces s i + 1) s = dropWhile (\<lambda>x. x = 32) (drop (i + 1) s)"
proof (induction s i rule: skip_spaces.induct)
  case (1 s i)
  show ?case
  proof (cases "i + 1 < length s \<and> s ! (i + 1) = 32")
    case True
    then have "drop (i + 1) s = 32 # drop (i + 1 + 1) s"
      by (metis Cons_nth_drop_Suc Suc_eq_plus1)
    with True 1 show ?thesis
      by (subst skip_spaces.simps) simp
  next
    case False
    show ?thesis
    proof (cases "i + 1 < length s")
      case True
      with False have "s ! (i + 1) \<noteq> 32" by simp
      moreover from True have "drop (i + 1) s = s ! (i + 1) # drop (i + 1 + 1) s"
        by (metis Cons_nth_drop_Suc Suc_eq_plus1)
      ultimately show ?thesis using False
        by (subst skip_spaces.simps) simp
    next
      case short: False
      then show ?thesis using False
        by (subst skip_spaces.simps) simp
    qed
  qed
qed

lemma format_loop_collapse:
  "i \<le> length s \<Longrightarrow> format_loop s i acc = acc @ collapse (drop i s)"
proof (induction s i acc rule: format_loop.induct)
  case (1 s i acc)
  show ?case
  proof (cases "i < length s")
    case False
    with 1 show ?thesis by (subst format_loop.simps) simp
  next
    case True
    then have d: "drop i s = s ! i # drop (i + 1) s"
      by (simp add: Cons_nth_drop_Suc)
    show ?thesis
    proof (cases "s ! i = 32")
      case sp: True
      have le: "skip_spaces s i + 1 \<le> length s"
        using skip_spaces_lt[OF True] by simp
      from 1(1)[OF True sp le] show ?thesis
        using True sp d drop_skip_spaces[OF True]
        by (subst format_loop.simps) (simp add: collapse_space)
    next
      case nsp: False
      from True have "i + 1 \<le> length s" by simp
      from 1(2)[OF True nsp this] show ?thesis
        using True nsp d
        by (subst format_loop.simps) (simp add: collapse_nonspace)
    qed
  qed
qed

lemma format_name_collapse: "format_name s = collapse (py_strip s)"
  by (simp add: format_name_def format_loop_collapse)

lemma collapse_Nil_iff: "collapse xs = [] \<longleftrightarrow> xs = []"
  by (induction xs rule: collapse.induct) auto

lemma collapse_hd: "\<exists>r. collapse (b # cs) = b # r"
  by (induction cs arbitrary: b) auto

lemma collapse_last: "xs \<noteq> [] \<Longrightarrow> last (collapse xs) = last xs"
  by (induction xs rule: collapse.induct) (auto simp: collapse_Nil_iff)

lemma collapse_no_double: "collapse xs \<noteq> us @ 32 # 32 # vs"
proof (induction xs arbitrary: us rule: collapse.induct)
  case (1 a b cs)
  show ?case
  proof (cases "a = 32 \<and> b = 32")
    case True
    with 1(1) show ?thesis by simp
  next
    case False
    obtain r where r: "collapse (b # cs) = b # r"
      using collapse_hd by blast
    show ?thesis
    proof
      assume eq: "collapse (a # b # cs) = us @ 32 # 32 # vs"
      with False have eq': "a # collapse (b # cs) = us @ 32 # 32 # vs"
        by (auto split: if_splits)
      show False
      proof (cases us)
        case Nil
        with eq' r False show False by simp
      next
        case (Cons u us')
        with eq' have "collapse (b # cs) = us' @ 32 # 32 # vs" by simp
        with 1(2)[OF False] show False by blast
      qed
    qed
  qed
qed auto

lemma collapse_filter:
  "filter (\<lambda>c. c \<noteq> 32) (collapse xs) = filter (\<lambda>c. c \<noteq> 32) xs"
  by (induction xs rule: collapse.induct) auto

lemma collapse_idem: "collapse (collapse xs) = collapse xs"
proof (induction xs rule: collapse.induct)
  case (1 a b cs)
  obtain r where r: "collapse (b # cs) = b # r"
    using collapse_hd by blast
  show ?case
  proof (cases "a = 32 \<and> b = 32")
    case True
    with 1(1) show ?thesis by simp
  next
    case False
    have c1: "collapse (a # b # cs) = a # b # r"
      using False r by auto
    have c2: "collapse (a # b # r) = a # collapse (b # r)"
      using False by auto
    have "collapse (b # r) = b # r"
      using 1(2)[OF False] r by simp
    with c1 c2 show ?thesis by simp
  qed
qed auto

lemma dropWhile_id: "xs = [] \<or> \<not> P (hd xs) \<Longrightarrow> dropWhile P xs = xs"
  by (cases xs) auto

lemma last_dropWhile: "dropWhile P xs \<noteq> [] \<Longrightarrow> last (dropWhile P xs) = last xs"
  by (induction xs) (auto split: if_splits)

lemma py_strip_ends:
  assumes "py_strip s \<noteq> []"
  shows "\<not> py_isspace (hd (py_strip s))" and "\<not> py_isspace (last (py_strip s))"
proof -
  let ?t = "dropWhile py_isspace s"
  let ?u = "dropWhile py_isspace (rev ?t)"
  from assms have u: "?u \<noteq> []" by (simp add: py_strip_def)
  have t: "?t \<noteq> []"
  proof
    assume a: "?t = []"
    have "?u = []" unfolding a by simp
    with u show False by blast
  qed
  have "hd (py_strip s) = last ?u" using u by (simp add: py_strip_def hd_rev)
  also have "\<dots> = last (rev ?t)" using u by (rule last_dropWhile)
  also have "\<dots> = hd ?t" using t by (simp add: last_rev)
  finally show "\<not> py_isspace (hd (py_strip s))"
    using t hd_dropWhile[of py_isspace s] by simp
  have "last (py_strip s) = hd ?u" using u by (simp add: py_strip_def last_rev)
  then show "\<not> py_isspace (last (py_strip s))"
    using u hd_dropWhile[of py_isspace "rev ?t"] by simp
qed

lemma py_strip_id:
  assumes "r = [] \<or> (\<not> py_isspace (hd r) \<and> \<not> py_isspace (last r))"
  shows "py_strip r = r"
proof (cases "r = []")
  case True
  then show ?thesis by (simp add: py_strip_def)
next
  case False
  with assms have h: "\<not> py_isspace (hd r)" and l: "\<not> py_isspace (last r)" by auto
  from h have "dropWhile py_isspace r = r" by (simp add: dropWhile_id)
  moreover from l False have "dropWhile py_isspace (rev r) = rev r"
    by (simp add: dropWhile_id hd_rev)
  ultimately show ?thesis by (simp add: py_strip_def)
qed

lemma space_is_whitespace: "py_isspace 32"
  by (simp add: py_isspace_def)

lemma format_name_ends:
  assumes "format_name s \<noteq> []"
  shows "\<not> py_isspace (hd (format_name s))" and "\<not> py_isspace (last (format_name s))"
proof -
  from assms have sne: "py_strip s \<noteq> []"
    by (simp add: format_name_collapse collapse_Nil_iff)
  obtain b cs where bc: "py_strip s = b # cs"
    using sne by (cases "py_strip s") auto
  obtain r' where "collapse (b # cs) = b # r'"
    using collapse_hd by blast
  then have "hd (format_name s) = hd (py_strip s)"
    by (simp add: format_name_collapse bc)
  then show "\<not> py_isspace (hd (format_name s))"
    using py_strip_ends(1)[OF sne] by simp
  have "last (format_name s) = last (py_strip s)"
    using sne by (simp add: format_name_collapse collapse_last)
  then show "\<not> py_isspace (last (format_name s))"
    using py_strip_ends(2)[OF sne] by simp
qed

lemma format_name_idem: "format_name (format_name s) = format_name s"
proof -
  have "py_strip (format_name s) = format_name s"
    using format_name_ends[of s] by (intro py_strip_id) blast
  then show ?thesis
    by (simp add: format_name_collapse collapse_idem)
qed

lemma format_name_example:
  "format_name (codepoints ''  Smith   House  '') = codepoints ''Smith House''"
  by (simp add: format_name_collapse codepoints_def py_strip_def py_isspace_def)

text \<open>
  Claim C4. For every string \<open>s\<close>, the name \<open>create_house\<close> stores is the stripped input
  with every run of spaces collapsed to one space: it holds no two consecutive spaces, it
  neither starts nor ends with whitespace (a space in particular), its characters other
  than the space are those of the stripped input in the same order, and formatting it
  again changes nothing.
\<close>

theorem format_name_normalizes:
  "format_name s = collapse (py_strip s)
   \<and> (\<forall>us vs. format_name s \<noteq> us @ 32 # 32 # vs)
   \<and> (format_name s \<noteq> [] \<longrightarrow>
        \<not> py_isspace (hd (format_name s)) \<and> \<not> py_isspace (last (format_name s))
        \<and> hd (format_name s) \<noteq> 32 \<and> last (format_name s) \<noteq> 32)
   \<and> filter (\<lambda>c. c \<noteq> 32) (format_name s) = filter (\<lambda>c. c \<noteq> 32) (py_strip s)
   \<and> format_name (format_name s) = format_name s"
proof (intro conjI impI allI)
  show "format_name s = collapse (py_strip s)"
    by (rule format_name_collapse)
next
  fix us vs
  show "format_name s \<noteq> us @ 32 # 32 # vs"
    by (simp add: format_name_collapse collapse_no_double)
next
  assume ne: "format_name s \<noteq> []"
  show "\<not> py_isspace (hd (format_name s))" by (rule format_name_ends(1)[OF ne])
  show "\<not> py_isspace (last (format_name s))" by (rule format_name_ends(2)[OF ne])
  show "hd (format_name s) \<noteq> 32"
    using format_name_ends(1)[OF ne] space_is_whitespace by metis
  show "last (format_name s) \<noteq> 32"
    using format_name_ends(2)[OF ne] space_is_whitespace by metis
next
  show "filter (\<lambda>c. c \<noteq> 32) (format_name s) = filter (\<lambda>c. c \<noteq> 32) (py_strip s)"
    by (simp add: format_name_collapse collapse_filter)
next
  show "format_name (format_name s) = format_name s"
    by (rule format_name_idem)
qed

theorem format_name_normalizes_witness:
  "format_name (codepoints ''  Smith   House  '') = codepoints ''Smith House''
   \<and> format_name (codepoints ''  Smith   House  '') \<noteq> []
   \<and> hd (format_name (codepoints ''  Smith   House  '')) \<noteq> 32
   \<and> last (format_name (codepoints ''  Smith   House  '')) \<noteq> 32
   \<and> format_name (format_name (codepoints ''  Smith   House  ''))
       = format_name (codepoints ''  Smith   House  '')"
proof -
  let ?s = "codepoints ''  Smith   House  ''"
  have e: "format_name ?s = codepoints ''Smith House''"
    by (rule format_name_example)
  have ne: "format_name ?s \<noteq> []"
    unfolding e by (simp add: codepoints_def)
  from format_name_normalizes[of ?s] ne e show ?thesis
    by blast
qed

section \<open>Rounding a timestamp to a day\<close>

lemma dist_floor:
  "to_microseconds t - to_microseconds (replace_midnight t)
     = int (((hour t * 60 + minute t) * 60 + second t) * 1000000 + microsecond t)"
  by (simp add: to_microseconds_def replace_midnight_def algebra_simps)

lemma dist_next:
  "to_microseconds (next_midnight t) - to_microseconds t
     = 86400000000 - int (((hour t * 60 + minute t) * 60 + second t) * 1000000 + microsecond t)"
  by (simp add: to_microseconds_def replace_midnight_def next_midnight_def algebra_simps)

text \<open>
  Claim C9, against the code: on the last day the type has, after noon, the day after
  does not exist and \<open>day_rounder\<close> raises instead of returning a midnight.
\<close>

theorem day_rounder_last_day_counterexample:
  "valid_datetime \<lparr>ordinal = 3652059, hour = 13, minute = 0, second = 0, microsecond = 0\<rparr>
   \<and> day_rounder \<lparr>ordinal = 3652059, hour = 13, minute = 0, second = 0, microsecond = 0\<rparr>
       = Inl OverflowError"
  by (simp add: valid_datetime_def day_rounder_def add_days_def replace_midnight_def MAXORDINAL_def)

text \<open>
  Claim C9, amended. For every datetime \<open>t\<close> that is not after noon on the last
  representable day, \<open>day_rounder\<close> returns a datetime whose hour, minute, second and
  microsecond are zero, which is the midnight starting \<open>t\<close>'s day or the midnight
  starting the next day, whichever is closer to \<open>t\<close>; exactly at noon it is the midnight
  of \<open>t\<close>'s own day. For every datetime after noon on the last representable day,
  \<open>day_rounder\<close> raises \<open>OverflowError\<close> and returns nothing.
\<close>

theorem day_rounder_nearest:
  assumes v: "valid_datetime t"
  shows "(ordinal t < MAXORDINAL \<or> hour t < 12 \<or> at_noon t \<longrightarrow>
           (\<exists>r. day_rounder t = Inr r
              \<and> hour r = 0 \<and> minute r = 0 \<and> second r = 0 \<and> microsecond r = 0
              \<and> (r = replace_midnight t \<or> r = next_midnight t)
              \<and> \<bar>to_microseconds r - to_microseconds t\<bar>
                  \<le> \<bar>to_microseconds (replace_midnight t) - to_microseconds t\<bar>
              \<and> \<bar>to_microseconds r - to_microseconds t\<bar>
                  \<le> \<bar>to_microseconds (next_midnight t) - to_microseconds t\<bar>
              \<and> (at_noon t \<longrightarrow> r = replace_midnight t)))
     \<and> (ordinal t = MAXORDINAL \<and> \<not> hour t < 12 \<and> \<not> at_noon t \<longrightarrow>
           day_rounder t = Inl OverflowError)"
proof (intro conjI impI)
  assume r: "ordinal t < MAXORDINAL \<or> hour t < 12 \<or> at_noon t"
  show "\<exists>r. day_rounder t = Inr r
      \<and> hour r = 0 \<and> minute r = 0 \<and> second r = 0 \<and> microsecond r = 0
      \<and> (r = replace_midnight t \<or> r = next_midnight t)
      \<and> \<bar>to_microseconds r - to_microseconds t\<bar>
          \<le> \<bar>to_microseconds (replace_midnight t) - to_microseconds t\<bar>
      \<and> \<bar>to_microseconds r - to_microseconds t\<bar>
          \<le> \<bar>to_microseconds (next_midnight t) - to_microseconds t\<bar>
      \<and> (at_noon t \<longrightarrow> r = replace_midnight t)"
  proof (cases "hour t < 12 \<or> at_noon t")
    case True
    then have dr: "day_rounder t = Inr (replace_midnight t)"
      by (auto simp: day_rounder_def at_noon_def)
    have "((hour t * 60 + minute t) * 60 + second t) * 1000000 + microsecond t \<le> 43200000000"
      using True v by (auto simp: at_noon_def valid_datetime_def)
    then have "\<bar>to_microseconds (replace_midnight t) - to_microseconds t\<bar>
        \<le> \<bar>to_microseconds (next_midnight t) - to_microseconds t\<bar>"
      using dist_floor[of t] dist_next[of t] by linarith
    then show ?thesis using dr
      by (simp add: replace_midnight_def)
  next
    case False
    then have o: "ordinal t < MAXORDINAL" using r by blast
    from False have dr: "day_rounder t = Inr (next_midnight t)"
      using o
      by (auto simp: day_rounder_def at_noon_def add_days_def replace_midnight_def next_midnight_def)
    have "43200000000 \<le> ((hour t * 60 + minute t) * 60 + second t) * 1000000 + microsecond t"
      using False by (auto simp: at_noon_def)
    then have "\<bar>to_microseconds (next_midnight t) - to_microseconds t\<bar>
        \<le> \<bar>to_microseconds (replace_midnight t) - to_microseconds t\<bar>"
      using dist_floor[of t] dist_next[of t] by linarith
    then show ?thesis using dr False
      by (simp add: replace_midnight_def next_midnight_def)
  qed
next
  assume "ordinal t = MAXORDINAL \<and> \<not> hour t < 12 \<and> \<not> at_noon t"
  then show "day_rounder t = Inl OverflowError"
    by (auto simp: day_rounder_def at_noon_def add_days_def replace_midnight_def)
qed

theorem day_rounder_nearest_witness:
  "valid_datetime \<lparr>ordinal = 739000, hour = 18, minute = 30, second = 0, microsecond = 0\<rparr>
   \<and> ordinal \<lparr>ordinal = 739000, hour = 18, minute = 30, second = 0, microsecond = 0\<rparr> < MAXORDINAL
   \<and> day_rounder \<lparr>ordinal = 739000, hour = 18, minute = 30, second = 0, microsecond = 0\<rparr>
       = Inr \<lparr>ordinal = 739001, hour = 0, minute = 0, second = 0, microsecond = 0\<rparr>
   \<and> (\<exists>r. day_rounder \<lparr>ordinal = 739000, hour = 18, minute = 30, second = 0, microsecond = 0\<rparr> = Inr r
        \<and> hour r = 0 \<and> minute r = 0 \<and> second r = 0 \<and> microsecond r = 0)
   \<and> valid_datetime \<lparr>ordinal = 3652059, hour = 23, minute = 59, second = 59, microsecond = 999999\<rparr>
   \<and> ordinal \<lparr>ordinal = 3652059, hour = 23, minute = 59, second = 59, microsecond = 999999\<rparr> = MAXORDINAL
   \<and> day_rounder \<lparr>ordinal = 3652059, hour = 23, minute = 59, second = 59, microsecond = 999999\<rparr>
       = Inl OverflowError"
proof -
  let ?t = "\<lparr>ordinal = 739000, hour = 18, minute = 30, second = 0, microsecond = 0\<rparr>"
  let ?z = "\<lparr>ordinal = 3652059, hour = 23, minute = 59, second = 59, microsecond = 999999\<rparr>"
  have v: "valid_datetime ?t"
    by (simp add: valid_datetime_def MAXORDINAL_def)
  have o: "ordinal ?t < MAXORDINAL"
    by (simp add: MAXORDINAL_def)
  have e: "day_rounder ?t = Inr \<lparr>ordinal = 739001, hour = 0, minute = 0, second = 0, microsecond = 0\<rparr>"
    by (simp add: day_rounder_def add_days_def replace_midnight_def MAXORDINAL_def)
  have vz: "valid_datetime ?z"
    by (simp add: valid_datetime_def MAXORDINAL_def)
  have oz: "ordinal ?z = MAXORDINAL \<and> \<not> hour ?z < 12 \<and> \<not> at_noon ?z"
    by (simp add: MAXORDINAL_def at_noon_def)
  from day_rounder_nearest[OF vz] oz have z: "day_rounder ?z = Inl OverflowError"
    by blast
  from day_rounder_nearest[OF v] o v e vz oz z show ?thesis
    by blast
qed

section \<open>The pool and the context managers\<close>

lemma putconn_getconn: "getconn p = Inr p1 \<Longrightarrow> putconn p1 = p"
  by (auto simp: getconn_def putconn_def split: if_splits)

text \<open>
  Claim C6. Every data-access function runs its statements as the body of
  \<open>get_db_cursor\<close>. Whatever the body does (it returns, also early, or raises at any
  statement), and whether or not a connection could be acquired, the pool is afterwards
  what it was before: the connection taken by \<open>getconn\<close> has been given back by
  \<open>putconn\<close>, and a failed acquisition took none.
\<close>

theorem get_db_cursor_returns_connection:
  "gpool (snd (get_db_cursor commit body w)) = gpool w"
proof (cases "gpool w")
  case None
  then show ?thesis
    by (simp add: get_db_cursor_def get_db_connection_def)
next
  case (Some p)
  show ?thesis
  proof (cases "getconn p")
    case (Inl e)
    with Some show ?thesis
      by (simp add: get_db_cursor_def get_db_connection_def)
  next
    case (Inr p1)
    then have "putconn p1 = p" by (rule putconn_getconn)
    with Some Inr show ?thesis
      by (auto simp: get_db_cursor_def get_db_connection_def split: sum.splits prod.splits)
  qed
qed

lemma example_environ_url:
  "example_environ (codepoints ''DATABASE_URL'') = Some (codepoints ''postgres://db/roomhub'')"
  by (simp add: example_environ_def codepoints_def)

text \<open>
  Claim C7, against the code: an environment that asks for other bounds still gets a pool
  of at least 1 and at most 100 connections; only the DSN is read from it.
\<close>

theorem setup_pool_ignores_environ_counterexample:
  "example_environ (codepoints ''DB_POOL_MAX'') = Some (codepoints ''5'')
   \<and> example_environ (codepoints ''DB_POOL_MIN'') = Some (codepoints ''2'')
   \<and> gpool (snd (setup_pool example_environ reachable fresh_world))
       = Some \<lparr>minconn = 1, maxconn = 100, dsn = codepoints ''postgres://db/roomhub'', in_use = 0\<rparr>"
  by (simp add: setup_pool_def example_environ_url reachable_def)
    (simp add: example_environ_def codepoints_def)

text \<open>
  Claim C7, amended. \<open>setup()\<close> takes only the DSN from configuration, the environment
  variable \<open>DATABASE_URL\<close>, without which it raises \<open>KeyError\<close>. When the first
  connection to that DSN cannot be opened, the exception of the driver leaves \<open>setup()\<close>
  and no pool is installed. Whenever \<open>setup()\<close> succeeds, the bounds of the pool it
  installs are the literals 1 and 100 of the code, whatever else the environment holds.
\<close>

theorem setup_pool_bounds_fixed:
  "(environ (codepoints ''DATABASE_URL'') = None \<longrightarrow>
      setup_pool environ connect w = (Inl KeyError, w))
   \<and> (\<forall>url e. environ (codepoints ''DATABASE_URL'') = Some url \<and> connect url = Inl e \<longrightarrow>
        setup_pool environ connect w = (Inl e, w))
   \<and> (\<forall>url. environ (codepoints ''DATABASE_URL'') = Some url \<and> connect url = Inr () \<longrightarrow>
        setup_pool environ connect w
          = (Inr (), w\<lparr>gpool := Some \<lparr>minconn = 1, maxconn = 100, dsn = url, in_use = 0\<rparr>\<rparr>))
   \<and> (\<forall>w'. setup_pool environ connect w = (Inr (), w') \<longrightarrow>
        map_option minconn (gpool w') = Some 1 \<and> map_option maxconn (gpool w') = Some 100
        \<and> map_option dsn (gpool w') = environ (codepoints ''DATABASE_URL'')
        \<and> store w' = store w)"
  by (auto simp: setup_pool_def split: option.splits sum.splits)

theorem setup_pool_bounds_fixed_witness:
  "example_environ (codepoints ''DATABASE_URL'') = Some (codepoints ''postgres://db/roomhub'')
   \<and> reachable (codepoints ''postgres://db/roomhub'') = Inr ()
   \<and> setup_pool example_environ reachable fresh_world
       = (Inr (), fresh_world\<lparr>gpool :=
            Some \<lparr>minconn = 1, maxconn = 100, dsn = codepoints ''postgres://db/roomhub'', in_use = 0\<rparr>\<rparr>)
   \<and> map_option maxconn (gpool (snd (setup_pool example_environ reachable fresh_world))) = Some 100
   \<and> unreachable (codepoints ''postgres://db/roomhub'') = Inl OperationalError
   \<and> setup_pool example_environ unreachable fresh_world = (Inl OperationalError, fresh_world)
   \<and> Map.empty (codepoints ''DATABASE_URL'') = (None :: pystr option)
   \<and> setup_pool Map.empty reachable fresh_world = (Inl KeyError, fresh_world)"
proof -
  have u: "example_environ (codepoints ''DATABASE_URL'') = Some (codepoints ''postgres://db/roomhub'')"
    by (rule example_environ_url)
  have c: "reachable (codepoints ''postgres://db/roomhub'') = Inr ()"
    by (simp add: reachable_def)
  have n: "unreachable (codepoints ''postgres://db/roomhub'') = Inl OperationalError"
    by (simp add: unreachable_def)
  from setup_pool_bounds_fixed[of example_environ reachable fresh_world] u c
  have s: "setup_pool example_environ reachable fresh_world
       = (Inr (), fresh_world\<lparr>gpool :=
            Some \<lparr>minconn = 1, maxconn = 100, dsn = codepoints ''postgres://db/roomhub'', in_use = 0\<rparr>\<rparr>)"
    by blast
  from setup_pool_bounds_fixed[of example_environ unreachable fresh_world] u n
  have f: "setup_pool example_environ unreachable fresh_world = (Inl OperationalError, fresh_world)"
    by blast
  from setup_pool_bounds_fixed[of Map.empty reachable fresh_world]
  have k: "setup_pool Map.empty reachable fresh_world = (Inl KeyError, fresh_world)"
    by simp
  show ?thesis using u c s n f k by simp
qed

section \<open>Data access on a pool with a free connection\<close>

lemma rollback_same [simp]: "rollback d d = d"
  by (simp add: rollback_def)

lemma rollback_tables [simp]:
  "users (rollback c d) = users c" "houses (rollback c d) = houses c"
  "user_houses (rollback c d) = user_houses c" "tasks (rollback c d) = tasks c"
  "restrictions (rollback c d) = restrictions c"
  by (simp_all add: rollback_def)

lemma get_db_cursor_ready:
  assumes "pool_ready w"
  shows "get_db_cursor c body w =
     (case body (store w) of
        (Inl e, d) \<Rightarrow> (Inl e, w\<lparr>store := rollback (store w) d\<rparr>)
      | (Inr r, d) \<Rightarrow>
          (Inr r, if c then w\<lparr>store := d, commits := commits w @ [d]\<rparr>
                  else w\<lparr>store := rollback (store w) d\<rparr>))"
proof -
  from assms obtain p where p: "gpool w = Some p" and lt: "in_use p < maxconn p"
    by (auto simp: pool_ready_def split: option.splits)
  have g: "getconn p = Inr (p\<lparr>in_use := in_use p + 1\<rparr>)"
    using lt by (simp add: getconn_def)
  have pg: "putconn (p\<lparr>in_use := in_use p + 1\<rparr>) = p"
    by (simp add: putconn_def)
  have w: "w\<lparr>gpool := Some p\<rparr> = w"
    using p by (cases w) simp
  show ?thesis
    using p g pg w
    by (cases w) (auto simp: get_db_cursor_def get_db_connection_def split: sum.splits prod.splits)
qed

text \<open>A read: statements that leave the contents as they found them.\<close>

lemma get_db_cursor_read:
  assumes "pool_ready w" and "body (store w) = (r, store w)"
  shows "get_db_cursor False body w = (r, w)"
  using assms by (cases r) (simp_all add: get_db_cursor_ready)

lemma pool_ready_store [simp]: "pool_ready (w\<lparr>store := d\<rparr>) = pool_ready w"
  by (simp add: pool_ready_def)

lemma pool_ready_commits [simp]: "pool_ready (w\<lparr>commits := cs\<rparr>) = pool_ready w"
  by (simp add: pool_ready_def)

lemma pool_ready_ready_world [simp]: "pool_ready (ready_world d)"
  by (simp add: pool_ready_def ready_world_def)

lemma store_ready_world [simp]: "store (ready_world d) = d"
  by (simp add: ready_world_def)

lemma commits_ready_world [simp]: "commits (ready_world d) = []"
  by (simp add: ready_world_def)

lemma find_None_image: "k \<notin> f ` set xs \<Longrightarrow> find (\<lambda>x. f x = k) xs = None"
  by (auto simp: find_None_iff)

lemma filter_Nil_image: "k \<notin> f ` set xs \<Longrightarrow> filter (\<lambda>x. f x = k) xs = []"
  by (auto simp: filter_empty_conv)

lemma sort_key_Nil_iff: "sort_key k xs = [] \<longleftrightarrow> xs = []"
  by (metis length_0_conv length_sort)

lemma count_list_insort_key: "count_list (insort_key k x xs) y = count_list (x # xs) y"
  by (induction xs) auto

lemma count_list_sort_key: "count_list (sort_key k xs) y = count_list xs y"
  by (induction xs) (simp_all add: count_list_insort_key)

lemma member_rows_no_membership:
  "filter (\<lambda>uh. uh_house_id uh = h) (user_houses d) = [] \<Longrightarrow> member_rows d h = []"
  by (simp add: member_rows_def)

lemma set_member_rows:
  "set (member_rows d h) =
     {u \<in> set (users d). \<exists>uh \<in> set (user_houses d). uh_house_id uh = h \<and> u_id u = uh_user_id uh}"
  by (auto simp: member_rows_def image_iff)

lemma get_house_members_ready:
  "pool_ready w \<Longrightarrow>
   get_house_members h w =
     (Inr (if member_rows (store w) h \<noteq> [] then map u_username (member_rows (store w) h)
           else [codepoints ''No members'']), w)"
  by (simp add: get_house_members_def get_db_cursor_read Let_def)

lemma is_last_member_ready:
  "pool_ready w \<Longrightarrow>
   is_last_member h w
     = (Inr (length (filter (\<lambda>uh. uh_house_id uh = h) (user_houses (store w))) = 1), w)"
  by (simp add: is_last_member_def get_db_cursor_read Let_def)

section \<open>Reads of what is not there\<close>

text \<open>
  Claim C8, against the code: asked about a house id that no table holds,
  \<open>get_house_members\<close> answers with a list of one string and \<open>is_last_member\<close> with
  \<open>False\<close>, neither of which is \<open>None\<close> or an empty collection.
\<close>

theorem get_house_members_unknown_house_counterexample:
  "get_house_members 7 (ready_world empty_db)
     = (Inr [codepoints ''No members''], ready_world empty_db)
   \<and> [codepoints ''No members''] \<noteq> ([] :: pystr list)
   \<and> is_last_member 7 (ready_world empty_db) = (Inr False, ready_world empty_db)"
  by (simp add: get_house_members_ready is_last_member_ready member_rows_def empty_db_def)

text \<open>
  Claim C8, amended. With a connection available, every read operation that is asked
  for something that is not in the store, by an integer id or by a string the driver
  can send, raises nothing and leaves the store as it was. It returns \<open>None\<close>
  (\<open>check_user_exists\<close>, \<open>get_user_id\<close>, \<open>check_house_exists\<close>, \<open>get_house_name_by_id\<close>,
  \<open>get_user_by_id\<close>), an empty list (\<open>get_tasks_by_house_id\<close>, \<open>get_restrictions\<close>,
  \<open>get_user_houses\<close>, \<open>get_tasks_with_due_dates\<close>), an empty dictionary
  (\<open>get_member_id_dict\<close>), the one-element list \<open>["No members"]\<close> (\<open>get_house_members\<close>),
  \<open>False\<close> (\<open>is_last_member\<close>) or, for \<open>get_houses_to_join\<close> with a user id that has no
  membership, each house of the store once. A string the driver cannot send (one
  holding a NUL character or a lone surrogate) is the one error: the three reads by
  email or name raise the driver's exception and read nothing.
\<close>

theorem reads_of_absent_keys:
  assumes ready: "pool_ready w"
    and email: "adapt_str email = Inr email" "email \<notin> u_email ` set (users (store w))"
    and name: "adapt_str name = Inr name" "name \<notin> h_house_name ` set (houses (store w))"
    and uid: "uid \<notin> u_id ` set (users (store w))"
             "uid \<notin> uh_user_id ` set (user_houses (store w))"
    and hid: "hid \<notin> h_house_id ` set (houses (store w))"
             "hid \<notin> uh_house_id ` set (user_houses (store w))"
             "hid \<notin> t_house_id ` set (tasks (store w))"
             "hid \<notin> r_house_id ` set (restrictions (store w))"
  shows "check_user_exists email w = (Inr None, w)
     \<and> get_user_id email w = (Inr None, w)
     \<and> check_house_exists name w = (Inr None, w)
     \<and> get_house_name_by_id hid w = (Inr None, w)
     \<and> get_user_by_id uid w = (Inr None, w)
     \<and> get_tasks_by_house_id hid w = (Inr [], w)
     \<and> get_restrictions hid w = (Inr [], w)
     \<and> get_user_houses uid w = (Inr [], w)
     \<and> get_tasks_with_due_dates fmt hid w = (Inr [], w)
     \<and> get_member_id_dict hid w = (Inr Map.empty, w)
     \<and> get_house_members hid w = (Inr [codepoints ''No members''], w)
     \<and> is_last_member hid w = (Inr False, w)
     \<and> (\<exists>rows. get_houses_to_join uid w = (Inr rows, w) \<and> distinct rows
           \<and> set rows = (\<lambda>h. (h_house_name h, h_house_id h)) ` set (houses (store w)))
     \<and> (\<forall>s e. adapt_str s = Inl e \<longrightarrow>
           check_user_exists s w = (Inl e, w) \<and> get_user_id s w = (Inl e, w)
           \<and> check_house_exists s w = (Inl e, w))"
proof -
  have no_members: "member_rows (store w) hid = []"
    using hid(2) by (simp add: member_rows_no_membership filter_Nil_image)
  have t: "get_tasks_by_house_id hid w = (Inr [], w)"
    using ready hid(3) by (simp add: get_tasks_by_house_id_def get_db_cursor_read filter_Nil_image)
  have "check_user_exists email w = (Inr None, w)"
    using ready email
    by (simp add: check_user_exists_def get_db_cursor_read with_str_def find_None_image)
  moreover have "get_user_id email w = (Inr None, w)"
    using ready email
    by (simp add: get_user_id_def get_db_cursor_read with_str_def find_None_image)
  moreover have "check_house_exists name w = (Inr None, w)"
    using ready name
    by (simp add: check_house_exists_def get_db_cursor_read with_str_def find_None_image)
  moreover have "get_house_name_by_id hid w = (Inr None, w)"
    using ready hid(1) by (simp add: get_house_name_by_id_def get_db_cursor_read find_None_image)
  moreover have "get_user_by_id uid w = (Inr None, w)"
    using ready uid(1) by (simp add: get_user_by_id_def get_db_cursor_read find_None_image)
  moreover note t
  moreover have "get_restrictions hid w = (Inr [], w)"
    using ready hid(4) by (simp add: get_restrictions_def get_db_cursor_read filter_Nil_image)
  moreover have "get_user_houses uid w = (Inr [], w)"
    using ready uid(2) by (simp add: get_user_houses_def get_db_cursor_read filter_Nil_image)
  moreover have "get_tasks_with_due_dates fmt hid w = (Inr [], w)"
    using t by (simp add: get_tasks_with_due_dates_def bind_op_def return_op_def)
  moreover have "get_member_id_dict hid w = (Inr Map.empty, w)"
    using ready no_members by (simp add: get_member_id_dict_def get_db_cursor_read)
  moreover have "get_house_members hid w = (Inr [codepoints ''No members''], w)"
    using ready no_members by (simp add: get_house_members_ready)
  moreover have "is_last_member hid w = (Inr False, w)"
    using ready hid(2) by (simp add: is_last_member_ready filter_Nil_image)
  moreover have "\<exists>rows. get_houses_to_join uid w = (Inr rows, w) \<and> distinct rows
           \<and> set rows = (\<lambda>h. (h_house_name h, h_house_id h)) ` set (houses (store w))"
  proof -
    have f: "{x \<in> set (user_houses (store w)). uh_user_id x = uid} = {}"
      using uid(2) by auto
    show ?thesis
      using ready by (simp add: get_houses_to_join_def get_db_cursor_read f)
  qed
  moreover have "\<forall>s e. adapt_str s = Inl e \<longrightarrow>
           check_user_exists s w = (Inl e, w) \<and> get_user_id s w = (Inl e, w)
           \<and> check_house_exists s w = (Inl e, w)"
    using ready
    by (simp add: check_user_exists_def get_user_id_def check_house_exists_def
        get_db_cursor_read with_str_def)
  ultimately show ?thesis by blast
qed

theorem reads_of_absent_keys_witness:
  "pool_ready (ready_world maple_db)
   \<and> adapt_str (codepoints ''bob@x.com'') = Inr (codepoints ''bob@x.com'')
   \<and> adapt_str (codepoints ''Oak St'') = Inr (codepoints ''Oak St'')
   \<and> check_user_exists (codepoints ''bob@x.com'') (ready_world maple_db) = (Inr None, ready_world maple_db)
   \<and> get_user_id (codepoints ''bob@x.com'') (ready_world maple_db) = (Inr None, ready_world maple_db)
   \<and> check_house_exists (codepoints ''Oak St'') (ready_world maple_db) = (Inr None, ready_world maple_db)
   \<and> get_house_name_by_id 7 (ready_world maple_db) = (Inr None, ready_world maple_db)
   \<and> get_user_by_id 9 (ready_world maple_db) = (Inr None, ready_world maple_db)
   \<and> get_tasks_by_house_id 7 (ready_world maple_db) = (Inr [], ready_world maple_db)
   \<and> get_restrictions 7 (ready_world maple_db) = (Inr [], ready_world maple_db)
   \<and> get_house_members 7 (ready_world maple_db)
       = (Inr [codepoints ''No members''], ready_world maple_db)
   \<and> is_last_member 7 (ready_world maple_db) = (Inr False, ready_world maple_db)
   \<and> adapt_str [65, 0, 66] = Inl ValueError
   \<and> check_house_exists [65, 0, 66] (ready_world maple_db) = (Inl ValueError, ready_world maple_db)"
proof -
  have a: "adapt_str (codepoints ''bob@x.com'') = Inr (codepoints ''bob@x.com'')"
      "adapt_str (codepoints ''Oak St'') = Inr (codepoints ''Oak St'')"
      "adapt_str [65, 0, 66] = Inl ValueError"
    by (simp_all add: adapt_str_def codepoints_def)
  have "codepoints ''bob@x.com'' \<notin> u_email ` set (users (store (ready_world maple_db)))"
    by (simp add: maple_db_def codepoints_def)
  moreover have "codepoints ''Oak St'' \<notin> h_house_name ` set (houses (store (ready_world maple_db)))"
    by (simp add: maple_db_def codepoints_def)
  moreover have "9 \<notin> u_id ` set (users (store (ready_world maple_db)))"
    "9 \<notin> uh_user_id ` set (user_houses (store (ready_world maple_db)))"
    "7 \<notin> h_house_id ` set (houses (store (ready_world maple_db)))"
    "7 \<notin> uh_house_id ` set (user_houses (store (ready_world maple_db)))"
    "7 \<notin> t_house_id ` set (tasks (store (ready_world maple_db)))"
    "7 \<notin> r_house_id ` set (restrictions (store (ready_world maple_db)))"
    by (simp_all add: maple_db_def)
  ultimately show ?thesis
    using reads_of_absent_keys[of "ready_world maple_db" "codepoints ''bob@x.com''"
        "codepoints ''Oak St''" 9 7] a
    by simp
qed

section \<open>The members of a house\<close>

text \<open>
  Claim C5, against the code: a house whose one member is a user named \<open>No members\<close>
  has a membership row, and \<open>get_house_members\<close> returns a list equal to the sentinel
  list; and a membership row whose user is missing from \<open>users\<close> joins with nothing, so
  the sentinel is returned although the house has a membership row.
\<close>

theorem get_house_members_sentinel_counterexample:
  "filter (\<lambda>uh. uh_house_id uh = 1) (user_houses sentinel_db) = [\<lparr>uh_user_id = 1, uh_house_id = 1\<rparr>]
   \<and> get_house_members 1 (ready_world sentinel_db)
       = (Inr [codepoints ''No members''], ready_world sentinel_db)
   \<and> filter (\<lambda>uh. uh_house_id uh = 1) (user_houses (sentinel_db\<lparr>users := []\<rparr>))
       = [\<lparr>uh_user_id = 1, uh_house_id = 1\<rparr>]
   \<and> get_house_members 1 (ready_world (sentinel_db\<lparr>users := []\<rparr>))
       = (Inr [codepoints ''No members''], ready_world (sentinel_db\<lparr>users := []\<rparr>))"
  by (simp add: get_house_members_ready member_rows_def sentinel_db_def empty_db_def)

text \<open>
  Claim C5, amended. With a connection available: for a house with no row in
  \<open>user_houses\<close>, \<open>get_house_members\<close> returns exactly \<open>["No members"]\<close>. For a house
  with at least one membership row whose user is in \<open>users\<close>, it returns the usernames
  of the joined rows, a non-empty list holding exactly the usernames of the users that
  a membership row of the house names; that list is the sentinel list only when it is
  the single username \<open>No members\<close>.
\<close>

theorem get_house_members_result:
  assumes ready: "pool_ready w"
  shows "(filter (\<lambda>uh. uh_house_id uh = h) (user_houses (store w)) = [] \<longrightarrow>
            get_house_members h w = (Inr [codepoints ''No members''], w))
     \<and> ((\<exists>uh \<in> set (user_houses (store w)).
            uh_house_id uh = h \<and> uh_user_id uh \<in> u_id ` set (users (store w))) \<longrightarrow>
          (\<exists>ms. get_house_members h w = (Inr ms, w)
             \<and> ms \<noteq> []
             \<and> ms = map u_username (member_rows (store w) h)
             \<and> set ms = {u_username u | u. u \<in> set (users (store w)) \<and>
                   (\<exists>uh \<in> set (user_houses (store w)). uh_house_id uh = h \<and> u_id u = uh_user_id uh)}
             \<and> (ms = [codepoints ''No members''] \<longrightarrow>
                   (\<forall>u \<in> set (member_rows (store w) h). u_username u = codepoints ''No members''))))"
proof (intro conjI impI)
  assume "filter (\<lambda>uh. uh_house_id uh = h) (user_houses (store w)) = []"
  then show "get_house_members h w = (Inr [codepoints ''No members''], w)"
    using ready by (simp add: get_house_members_ready member_rows_no_membership)
next
  assume "\<exists>uh \<in> set (user_houses (store w)).
            uh_house_id uh = h \<and> uh_user_id uh \<in> u_id ` set (users (store w))"
  then obtain uh x where "uh \<in> set (user_houses (store w))" "uh_house_id uh = h"
      "x \<in> set (users (store w))" "u_id x = uh_user_id uh"
    by auto
  then have "x \<in> set (member_rows (store w) h)"
    unfolding set_member_rows by blast
  then have ne: "member_rows (store w) h \<noteq> []" by auto
  let ?ms = "map u_username (member_rows (store w) h)"
  have g: "get_house_members h w = (Inr ?ms, w)"
    using ready ne by (simp add: get_house_members_ready)
  have s: "set ?ms = {u_username u | u. u \<in> set (users (store w)) \<and>
      (\<exists>uh \<in> set (user_houses (store w)). uh_house_id uh = h \<and> u_id u = uh_user_id uh)}"
    unfolding set_map set_member_rows by auto
  have one: "?ms = [codepoints ''No members''] \<longrightarrow>
      (\<forall>u \<in> set (member_rows (store w) h). u_username u = codepoints ''No members'')"
  proof
    assume "?ms = [codepoints ''No members'']"
    then have "set ?ms = {codepoints ''No members''}" by simp
    then show "\<forall>u \<in> set (member_rows (store w) h). u_username u = codepoints ''No members''"
      by auto
  qed
  from g ne s one
  show "\<exists>ms. get_house_members h w = (Inr ms, w)
      \<and> ms \<noteq> []
      \<and> ms = map u_username (member_rows (store w) h)
      \<and> set ms = {u_username u | u. u \<in> set (users (store w)) \<and>
            (\<exists>uh \<in> set (user_houses (store w)). uh_house_id uh = h \<and> u_id u = uh_user_id uh)}
      \<and> (ms = [codepoints ''No members''] \<longrightarrow>
            (\<forall>u \<in> set (member_rows (store w) h). u_username u = codepoints ''No members''))"
    by (intro exI[of _ ?ms]) simp
qed

theorem get_house_members_result_witness:
  "pool_ready (ready_world maple_db)
   \<and> filter (\<lambda>uh. uh_house_id uh = 7) (user_houses (store (ready_world maple_db))) = []
   \<and> get_house_members 7 (ready_world maple_db)
       = (Inr [codepoints ''No members''], ready_world maple_db)
   \<and> (\<exists>uh \<in> set (user_houses (store (ready_world maple_db))).
         uh_house_id uh = 1 \<and> uh_user_id uh \<in> u_id ` set (users (store (ready_world maple_db))))
   \<and> get_house_members 1 (ready_world maple_db) = (Inr [codepoints ''alice''], ready_world maple_db)
   \<and> [codepoints ''alice''] \<noteq> [codepoints ''No members'']"
proof -
  have a: "filter (\<lambda>uh. uh_house_id uh = 7) (user_houses (store (ready_world maple_db))) = []"
    by (simp add: maple_db_def)
  have b: "\<exists>uh \<in> set (user_houses (store (ready_world maple_db))).
         uh_house_id uh = 1 \<and> uh_user_id uh \<in> u_id ` set (users (store (ready_world maple_db)))"
    by (simp add: maple_db_def)
  have m: "map u_username (member_rows (store (ready_world maple_db)) 1) = [codepoints ''alice'']"
    by (simp add: maple_db_def empty_db_def member_rows_def)
  have n: "[codepoints ''alice''] \<noteq> [codepoints ''No members'']"
    by (simp add: codepoints_def)
  have r: "pool_ready (ready_world maple_db)" by simp
  from get_house_members_result[OF r, of 7] a
  have s7: "get_house_members 7 (ready_world maple_db)
       = (Inr [codepoints ''No members''], ready_world maple_db)"
    by blast
  from get_house_members_result[OF r, of 1] b m
  have s1: "get_house_members 1 (ready_world maple_db) = (Inr [codepoints ''alice''], ready_world maple_db)"
    by metis
  from r a s7 b s1 n show ?thesis by blast
qed

section \<open>Joining a house twice\<close>

lemma get_house_members_nonempty:
  "pool_ready w \<Longrightarrow> member_rows (store w) h \<noteq> [] \<Longrightarrow>
   get_house_members h w = (Inr (map u_username (member_rows (store w) h)), w)"
  by (simp add: get_house_members_ready)

lemma is_last_member_not_one:
  "pool_ready w \<Longrightarrow> length (filter (\<lambda>uh. uh_house_id uh = h) (user_houses (store w))) \<noteq> 1 \<Longrightarrow>
   is_last_member h w = (Inr False, w)"
  by (simp add: is_last_member_ready)

lemma count_list_le_filter: "P x \<Longrightarrow> count_list xs x \<le> length (filter P xs)"
  by (induction xs) auto

lemma count_member_pairs:
  assumes "usr \<in> set us" and "u_id usr = u"
  shows "count_list uhs \<lparr>uh_user_id = u, uh_house_id = h\<rparr>
     \<le> count_list
          (concat (map (\<lambda>uh. map (\<lambda>x. (x, uh)) (filter (\<lambda>x. u_id x = uh_user_id uh) us))
                     (filter (\<lambda>uh. uh_house_id uh = h) uhs)))
          (usr, \<lparr>uh_user_id = u, uh_house_id = h\<rparr>)"
proof (induction uhs)
  case Nil
  show ?case by simp
next
  case (Cons a uhs)
  let ?r = "\<lparr>uh_user_id = u, uh_house_id = h\<rparr>"
  have one: "1 \<le> count_list (map (\<lambda>x. (x, ?r)) (filter (\<lambda>x. u_id x = u) us)) (usr, ?r)"
  proof -
    have "usr \<in> set (filter (\<lambda>x. u_id x = u) us)" using assms by simp
    then have "0 < count_list (filter (\<lambda>x. u_id x = u) us) usr"
      by (metis count_list_0_iff gr0I)
    moreover have "count_list (filter (\<lambda>x. u_id x = u) us) usr
        \<le> count_list (map (\<lambda>x. (x, ?r)) (filter (\<lambda>x. u_id x = u) us)) (usr, ?r)"
      by (rule count_list_map_ge)
    ultimately show ?thesis by linarith
  qed
  show ?case
  proof (cases "a = ?r")
    case True
    then show ?thesis using Cons one by simp
  next
    case False
    then show ?thesis using Cons
      by (cases "uh_house_id a = h") (simp_all add: trans_le_add2)
  qed
qed

lemma count_member_usernames:
  assumes "usr \<in> set (users d)" and "u_id usr = u"
  shows "count_list (user_houses d) \<lparr>uh_user_id = u, uh_house_id = h\<rparr>
     \<le> count_list (map u_username (member_rows d h)) (u_username usr)"
proof -
  let ?r = "\<lparr>uh_user_id = u, uh_house_id = h\<rparr>"
  let ?pairs = "concat (map (\<lambda>uh. map (\<lambda>x. (x, uh)) (filter (\<lambda>x. u_id x = uh_user_id uh) (users d)))
                     (filter (\<lambda>uh. uh_house_id uh = h) (user_houses d)))"
  have "count_list (user_houses d) ?r \<le> count_list ?pairs (usr, ?r)"
    by (rule count_member_pairs[OF assms])
  also have "\<dots> = count_list (sort_key (members_order d) ?pairs) (usr, ?r)"
    by (simp add: count_list_sort_key)
  also have "\<dots> \<le> count_list (map (\<lambda>p. u_username (fst p)) (sort_key (members_order d) ?pairs))
                     (u_username (fst (usr, ?r)))"
    by (rule count_list_map_ge)
  finally show ?thesis
    by (simp add: member_rows_def comp_def)
qed

text \<open>
  Claim C10. With a connection available, in every state where \<open>(u, h)\<close> is already a
  membership row (of keys the columns hold) and \<open>u\<close> is a user, \<open>add_user_house u h\<close>
  succeeds and appends a second, identical row. Afterwards the row occurs at least
  twice, \<open>get_house_members h\<close> lists \<open>u\<close>'s username at least once per such row, and
  \<open>is_last_member h\<close> is false, because it counts rows.
\<close>

theorem add_user_house_duplicates:
  assumes ready: "pool_ready w"
    and row: "\<lparr>uh_user_id = u, uh_house_id = h\<rparr> \<in> set (user_houses (store w))"
    and keys: "in_key_range (store w) u" "in_key_range (store w) h"
    and usr: "usr \<in> set (users (store w))" "u_id usr = u"
  shows "\<exists>w'. add_user_house u h w = (Inr (), w')
     \<and> user_houses (store w') = user_houses (store w) @ [\<lparr>uh_user_id = u, uh_house_id = h\<rparr>]
     \<and> count_list (user_houses (store w')) \<lparr>uh_user_id = u, uh_house_id = h\<rparr>
         = count_list (user_houses (store w)) \<lparr>uh_user_id = u, uh_house_id = h\<rparr> + 1
     \<and> 2 \<le> count_list (user_houses (store w')) \<lparr>uh_user_id = u, uh_house_id = h\<rparr>
     \<and> (\<exists>ms. get_house_members h w' = (Inr ms, w')
           \<and> count_list (user_houses (store w')) \<lparr>uh_user_id = u, uh_house_id = h\<rparr>
               \<le> count_list ms (u_username usr))
     \<and> is_last_member h w' = (Inr False, w')"
proof -
  let ?r = "\<lparr>uh_user_id = u, uh_house_id = h\<rparr>"
  let ?d = "(store w)\<lparr>user_houses := user_houses (store w) @ [?r]\<rparr>"
  let ?w = "w\<lparr>store := ?d, commits := commits w @ [?d]\<rparr>"
  have a: "add_user_house u h w = (Inr (), ?w)"
    using ready keys
    by (simp add: add_user_house_def get_db_cursor_ready with_key_def)
  have r': "pool_ready ?w" using ready by simp
  have uh: "user_houses (store ?w) = user_houses (store w) @ [?r]" by simp
  have us: "usr \<in> set (users (store ?w))" using usr(1) by simp
  have "0 < count_list (user_houses (store w)) ?r"
    using row by (metis count_list_0_iff gr0I)
  then have two: "2 \<le> count_list (user_houses (store ?w)) ?r"
    unfolding uh by simp
  have cnt: "count_list (user_houses (store ?w)) ?r
      \<le> count_list (map u_username (member_rows (store ?w) h)) (u_username usr)"
    by (rule count_member_usernames[OF us usr(2)])
  then have "count_list (map u_username (member_rows (store ?w) h)) (u_username usr) \<noteq> 0"
    using two by linarith
  then have ne: "member_rows (store ?w) h \<noteq> []" by auto
  have g: "get_house_members h ?w = (Inr (map u_username (member_rows (store ?w) h)), ?w)"
    by (rule get_house_members_nonempty[OF r' ne])
  have "count_list (user_houses (store ?w)) ?r
      \<le> length (filter (\<lambda>uh. uh_house_id uh = h) (user_houses (store ?w)))"
    by (rule count_list_le_filter) simp
  then have "length (filter (\<lambda>uh. uh_house_id uh = h) (user_houses (store ?w))) \<noteq> 1"
    using two by linarith
  then have l: "is_last_member h ?w = (Inr False, ?w)"
    by (rule is_last_member_not_one[OF r'])
  have c1: "count_list (user_houses (store ?w)) ?r = count_list (user_houses (store w)) ?r + 1"
    unfolding uh by simp
  show ?thesis
    using a uh c1 two g cnt l by blast
qed

theorem add_user_house_duplicates_witness:
  "pool_ready (ready_world maple_db)
   \<and> \<lparr>uh_user_id = 1, uh_house_id = 1\<rparr> \<in> set (user_houses (store (ready_world maple_db)))
   \<and> in_key_range (store (ready_world maple_db)) 1
   \<and> alice \<in> set (users (store (ready_world maple_db)))
   \<and> u_id alice = 1
   \<and> (\<exists>w'. add_user_house 1 1 (ready_world maple_db) = (Inr (), w')
        \<and> user_houses (store w')
            = [\<lparr>uh_user_id = 1, uh_house_id = 1\<rparr>, \<lparr>uh_user_id = 1, uh_house_id = 1\<rparr>]
        \<and> (\<exists>ms. get_house_members 1 w' = (Inr ms, w') \<and> 2 \<le> count_list ms (codepoints ''alice''))
        \<and> is_last_member 1 w' = (Inr False, w'))"
proof -
  have r: "pool_ready (ready_world maple_db)" by simp
  have m: "\<lparr>uh_user_id = 1, uh_house_id = 1\<rparr> \<in> set (user_houses (store (ready_world maple_db)))"
    by (simp add: maple_db_def)
  have k: "in_key_range (store (ready_world maple_db)) 1"
    by (simp add: in_key_range_def maple_db_def empty_db_def)
  have u: "alice \<in> set (users (store (ready_world maple_db)))"
    by (simp add: maple_db_def alice_def)
  have i: "u_id alice = 1" by (simp add: alice_def)
  have n: "u_username alice = codepoints ''alice''" by (simp add: alice_def)
  have uh: "user_houses (store (ready_world maple_db)) = [\<lparr>uh_user_id = 1, uh_house_id = 1\<rparr>]"
    by (simp add: maple_db_def)
  from add_user_house_duplicates[OF r m k k u i]
  obtain w' where w': "add_user_house 1 1 (ready_world maple_db) = (Inr (), w')"
      "user_houses (store w') = user_houses (store (ready_world maple_db)) @ [\<lparr>uh_user_id = 1, uh_house_id = 1\<rparr>]"
      "2 \<le> count_list (user_houses (store w')) \<lparr>uh_user_id = 1, uh_house_id = 1\<rparr>"
      "\<exists>ms. get_house_members 1 w' = (Inr ms, w')
           \<and> count_list (user_houses (store w')) \<lparr>uh_user_id = 1, uh_house_id = 1\<rparr>
               \<le> count_list ms (u_username alice)"
      "is_last_member 1 w' = (Inr False, w')"
    by blast
  from w'(4) obtain ms where ms: "get_house_members 1 w' = (Inr ms, w')"
      "count_list (user_houses (store w')) \<lparr>uh_user_id = 1, uh_house_id = 1\<rparr>
               \<le> count_list ms (u_username alice)"
    by blast
  from ms(2) w'(3) have "2 \<le> count_list ms (codepoints ''alice'')"
    unfolding n by linarith
  with ms(1) have e: "\<exists>ms. get_house_members 1 w' = (Inr ms, w') \<and> 2 \<le> count_list ms (codepoints ''alice'')"
    by blast
  have l: "user_houses (store w') = [\<lparr>uh_user_id = 1, uh_house_id = 1\<rparr>, \<lparr>uh_user_id = 1, uh_house_id = 1\<rparr>]"
    using w'(2) unfolding uh by simp
  from r m k u i w'(1) l e w'(5) show ?thesis by blast
qed

section \<open>Leaving a house\<close>

lemma find_filter_other: "find (\<lambda>x. f x = k) (filter (\<lambda>x. f x \<noteq> k) xs) = None"
  by (simp add: find_None_iff)

lemma filter_filter_singleton:
  "filter P xs = [a] \<Longrightarrow> Q a \<Longrightarrow> filter P (filter (\<lambda>x. \<not> Q x) xs) = []"
proof -
  assume a: "filter P xs = [a]" and q: "Q a"
  have "filter P (filter (\<lambda>x. \<not> Q x) xs) = filter (\<lambda>x. \<not> Q x) (filter P xs)"
    by (simp add: conj_commute)
  also have "\<dots> = []" using a q by simp
  finally show ?thesis .
qed

lemma filter_filter_swap: "filter P (filter Q xs) = filter Q (filter P xs)"
  by (simp add: conj_commute)

text \<open>
  The statements of \<open>leave_house\<close> on the contents of the store: the membership rows
  of the user in the house are deleted, and the house row with them when no membership
  row of the house remains.
\<close>

lemma leave_house_ready:
  assumes "pool_ready w"
  shows "\<exists>d. leave_house u h w = (Inr (), w\<lparr>store := d, commits := commits w @ [d]\<rparr>)
     \<and> user_houses d
         = filter (\<lambda>uh. \<not> (uh_user_id uh = u \<and> uh_house_id uh = h)) (user_houses (store w))
     \<and> houses d
         = (if filter (\<lambda>uh. uh_house_id uh = h) (user_houses d) = []
            then filter (\<lambda>x. h_house_id x \<noteq> h) (houses (store w)) else houses (store w))
     \<and> users d = users (store w) \<and> tasks d = tasks (store w)
     \<and> restrictions d = restrictions (store w)"
proof (cases "filter (\<lambda>uh. uh_house_id uh = h)
           (filter (\<lambda>uh. \<not> (uh_user_id uh = u \<and> uh_house_id uh = h)) (user_houses (store w))) = []")
  case True
  let ?d = "(store w)\<lparr>user_houses :=
                filter (\<lambda>uh. \<not> (uh_user_id uh = u \<and> uh_house_id uh = h)) (user_houses (store w)),
              houses := filter (\<lambda>x. h_house_id x \<noteq> h) (houses (store w))\<rparr>"
  have "leave_house u h w = (Inr (), w\<lparr>store := ?d, commits := commits w @ [?d]\<rparr>)"
    using assms True by (simp add: leave_house_def get_db_cursor_ready Let_def)
  then show ?thesis
    using True by (intro exI[of _ ?d]) simp
next
  case False
  let ?d = "(store w)\<lparr>user_houses :=
                filter (\<lambda>uh. \<not> (uh_user_id uh = u \<and> uh_house_id uh = h)) (user_houses (store w))\<rparr>"
  have "leave_house u h w = (Inr (), w\<lparr>store := ?d, commits := commits w @ [?d]\<rparr>)"
    using assms False by (simp add: leave_house_def get_db_cursor_ready Let_def)
  then show ?thesis
    using False by (intro exI[of _ ?d]) simp
qed

text \<open>
  The route when the house has exactly one membership row and it is the caller's: three
  transactions are committed, one after the other.
\<close>

lemma leave_house_route_sole_member:
  assumes ready: "pool_ready w"
    and sole: "filter (\<lambda>uh. uh_house_id uh = h) (user_houses (store w))
                 = [\<lparr>uh_user_id = u, uh_house_id = h\<rparr>]"
  shows "\<exists>d1 d2 d3.
       leave_house_route u h w
         = (Inr Json_ok, w\<lparr>store := d3, commits := commits w @ [d1, d2, d3]\<rparr>)
     \<and> d1 = (store w)\<lparr>tasks := filter (\<lambda>t. t_house_id t \<noteq> h) (tasks (store w))\<rparr>
     \<and> d2 = d1\<lparr>restrictions := filter (\<lambda>r. r_house_id r \<noteq> h) (restrictions (store w))\<rparr>
     \<and> d3 = d2\<lparr>user_houses :=
                  filter (\<lambda>uh. \<not> (uh_user_id uh = u \<and> uh_house_id uh = h)) (user_houses (store w)),
                houses := filter (\<lambda>x. h_house_id x \<noteq> h) (houses (store w))\<rparr>"
proof -
  define d1 where "d1 = (store w)\<lparr>tasks := filter (\<lambda>t. t_house_id t \<noteq> h) (tasks (store w))\<rparr>"
  define d2 where "d2 = d1\<lparr>restrictions := filter (\<lambda>r. r_house_id r \<noteq> h) (restrictions (store w))\<rparr>"
  define d3 where "d3 = d2\<lparr>user_houses :=
                  filter (\<lambda>uh. \<not> (uh_user_id uh = u \<and> uh_house_id uh = h)) (user_houses (store w)),
                houses := filter (\<lambda>x. h_house_id x \<noteq> h) (houses (store w))\<rparr>"
  define w1 where "w1 = w\<lparr>store := d1, commits := commits w @ [d1]\<rparr>"
  define w2 where "w2 = w\<lparr>store := d2, commits := commits w @ [d1, d2]\<rparr>"
  define w3 where "w3 = w\<lparr>store := d3, commits := commits w @ [d1, d2, d3]\<rparr>"
  have r1: "pool_ready w1" and r2: "pool_ready w2" and r3: "pool_ready w3"
    using ready by (simp_all add: w1_def w2_def w3_def)
  have gone: "filter (\<lambda>uh. uh_house_id uh = h)
       (filter (\<lambda>uh. \<not> (uh_user_id uh = u \<and> uh_house_id uh = h)) (user_houses (store w))) = []"
    using sole by (rule filter_filter_singleton) simp
  have s0: "is_last_member h w = (Inr True, w)"
    using ready sole by (simp add: is_last_member_ready)
  have s1: "delete_tasks_by_house h w = (Inr (), w1)"
    using ready by (simp add: delete_tasks_by_house_def get_db_cursor_ready w1_def d1_def)
  have s2: "delete_restrictions_by_house h w1 = (Inr (), w2)"
    using r1
    by (simp add: delete_restrictions_by_house_def get_db_cursor_ready w1_def w2_def d2_def d1_def)
  have s3: "leave_house u h w2 = (Inr (), w3)"
    using r2 gone
    by (simp add: leave_house_def get_db_cursor_ready Let_def w2_def w3_def d3_def d2_def d1_def)
  have s4: "is_last_member h w3 = (Inr False, w3)"
    using r3 gone by (simp add: is_last_member_ready w3_def d3_def)
  have "leave_house_route u h w = (Inr Json_ok, w3)"
    using s0 s1 s2 s3 s4
    by (simp add: leave_house_route_def bind_op_def return_op_def)
  then show ?thesis
    unfolding w3_def using d1_def d2_def d3_def by blast
qed

lemmas route_eval =
  leave_house_route_def bind_op_def return_op_def is_last_member_ready
  delete_tasks_by_house_def delete_restrictions_by_house_def leave_house_def delete_house_def
  get_tasks_by_house_id_def get_restrictions_def check_house_exists_def with_str_def
  get_db_cursor_ready Let_def

text \<open>
  Claim C3, against the code. When the only member of house 1 holds two membership rows
  (the state \<open>join_house\<close> twice leaves), the route finds two rows, skips the deletion
  of tasks and restrictions, and \<open>leave_house\<close> then deletes both rows and the house:
  the house is gone and its task and restriction are still returned. And when another
  house carries the same name, \<open>check_house_exists\<close> for the name still returns a row
  after the last member of house 1 has left.
\<close>

theorem leave_house_route_orphans_counterexample:
  "fst (leave_house_route 1 1 (ready_world twice_db)) = Inr Json_ok
   \<and> user_houses (store (snd (leave_house_route 1 1 (ready_world twice_db)))) = []
   \<and> houses (store (snd (leave_house_route 1 1 (ready_world twice_db)))) = []
   \<and> fst (get_tasks_by_house_id 1 (snd (leave_house_route 1 1 (ready_world twice_db))))
       = Inr (tasks maple_db)
   \<and> tasks maple_db \<noteq> []
   \<and> fst (get_restrictions 1 (snd (leave_house_route 1 1 (ready_world twice_db))))
       = Inr (restrictions maple_db)
   \<and> restrictions maple_db \<noteq> []
   \<and> fst (leave_house_route 1 1 (ready_world namesake_db)) = Inr Json_ok
   \<and> fst (check_house_exists (codepoints ''Maple St'')
            (snd (leave_house_route 1 1 (ready_world namesake_db))))
       = Inr (Some \<lparr>h_house_id = 2, h_house_name = codepoints ''Maple St''\<rparr>)"
proof -
  have a: "adapt_str (codepoints ''Maple St'') = Inr (codepoints ''Maple St'')"
    by (simp add: adapt_str_def codepoints_def)
  show ?thesis
    by (simp add: route_eval a twice_db_def namesake_db_def maple_db_def empty_db_def)
qed

text \<open>
  Claim C3, amended. With a connection available, for every house \<open>h\<close> that has exactly
  one membership row, the row of user \<open>u\<close>: after \<open>u\<close> completes the leave-house route
  the house and its dependents are gone. \<open>get_house_name_by_id h\<close> returns \<open>None\<close>,
  \<open>get_tasks_by_house_id h\<close> and \<open>get_restrictions h\<close> return empty lists, no membership
  row of \<open>h\<close> is left, and \<open>check_house_exists n\<close> returns \<open>None\<close> for every name \<open>n\<close>
  that no other house carries (a name being a string the driver can send, as every
  stored name is).
\<close>

theorem leave_house_route_last_member:
  assumes ready: "pool_ready w"
    and sole: "filter (\<lambda>uh. uh_house_id uh = h) (user_houses (store w))
                 = [\<lparr>uh_user_id = u, uh_house_id = h\<rparr>]"
    and name: "\<forall>x \<in> set (houses (store w)). h_house_name x = n \<longrightarrow> h_house_id x = h"
    and sendable: "adapt_str n = Inr n"
  shows "\<exists>w'. leave_house_route u h w = (Inr Json_ok, w')
     \<and> check_house_exists n w' = (Inr None, w')
     \<and> get_house_name_by_id h w' = (Inr None, w')
     \<and> get_tasks_by_house_id h w' = (Inr [], w')
     \<and> get_restrictions h w' = (Inr [], w')
     \<and> filter (\<lambda>uh. uh_house_id uh = h) (user_houses (store w')) = []"
proof -
  from leave_house_route_sole_member[OF ready sole]
  obtain d1 d2 d3 where
    route: "leave_house_route u h w
         = (Inr Json_ok, w\<lparr>store := d3, commits := commits w @ [d1, d2, d3]\<rparr>)"
    and d1: "d1 = (store w)\<lparr>tasks := filter (\<lambda>t. t_house_id t \<noteq> h) (tasks (store w))\<rparr>"
    and d2: "d2 = d1\<lparr>restrictions := filter (\<lambda>r. r_house_id r \<noteq> h) (restrictions (store w))\<rparr>"
    and d3: "d3 = d2\<lparr>user_houses :=
                  filter (\<lambda>uh. \<not> (uh_user_id uh = u \<and> uh_house_id uh = h)) (user_houses (store w)),
                houses := filter (\<lambda>x. h_house_id x \<noteq> h) (houses (store w))\<rparr>"
    by blast
  define w' where "w' = w\<lparr>store := d3, commits := commits w @ [d1, d2, d3]\<rparr>"
  have r: "pool_ready w'" using ready by (simp add: w'_def)
  have st: "store w' = d3" by (simp add: w'_def)
  have hs: "houses d3 = filter (\<lambda>x. h_house_id x \<noteq> h) (houses (store w))"
    and ts: "tasks d3 = filter (\<lambda>t. t_house_id t \<noteq> h) (tasks (store w))"
    and rs: "restrictions d3 = filter (\<lambda>r. r_house_id r \<noteq> h) (restrictions (store w))"
    and us: "user_houses d3
       = filter (\<lambda>uh. \<not> (uh_user_id uh = u \<and> uh_house_id uh = h)) (user_houses (store w))"
    by (simp_all add: d1 d2 d3)
  have "find (\<lambda>x. h_house_name x = n) (houses d3) = None"
    using name by (auto simp: hs find_None_iff)
  then have c: "check_house_exists n w' = (Inr None, w')"
    using r sendable by (simp add: check_house_exists_def get_db_cursor_read with_str_def st)
  have g: "get_house_name_by_id h w' = (Inr None, w')"
    using r by (simp add: get_house_name_by_id_def get_db_cursor_read st hs find_filter_other)
  have t: "get_tasks_by_house_id h w' = (Inr [], w')"
    using r by (simp add: get_tasks_by_house_id_def get_db_cursor_read st ts filter_Nil_image)
  have e: "get_restrictions h w' = (Inr [], w')"
    using r by (simp add: get_restrictions_def get_db_cursor_read st rs filter_Nil_image)
  have m: "filter (\<lambda>uh. uh_house_id uh = h) (user_houses (store w')) = []"
    unfolding st us using sole by (rule filter_filter_singleton) simp
  from route c g t e m show ?thesis
    unfolding w'_def by blast
qed

theorem leave_house_route_last_member_witness:
  "pool_ready (ready_world maple_db)
   \<and> filter (\<lambda>uh. uh_house_id uh = 1) (user_houses (store (ready_world maple_db)))
       = [\<lparr>uh_user_id = 1, uh_house_id = 1\<rparr>]
   \<and> adapt_str (codepoints ''Maple St'') = Inr (codepoints ''Maple St'')
   \<and> fst (check_house_exists (codepoints ''Maple St'') (ready_world maple_db))
       = Inr (Some \<lparr>h_house_id = 1, h_house_name = codepoints ''Maple St''\<rparr>)
   \<and> (\<exists>w'. leave_house_route 1 1 (ready_world maple_db) = (Inr Json_ok, w')
        \<and> check_house_exists (codepoints ''Maple St'') w' = (Inr None, w')
        \<and> get_tasks_by_house_id 1 w' = (Inr [], w')
        \<and> get_restrictions 1 w' = (Inr [], w'))"
proof -
  have r: "pool_ready (ready_world maple_db)" by simp
  have s: "filter (\<lambda>uh. uh_house_id uh = 1) (user_houses (store (ready_world maple_db)))
       = [\<lparr>uh_user_id = 1, uh_house_id = 1\<rparr>]"
    by (simp add: maple_db_def)
  have n: "\<forall>x \<in> set (houses (store (ready_world maple_db))).
       h_house_name x = codepoints ''Maple St'' \<longrightarrow> h_house_id x = 1"
    by (simp add: maple_db_def)
  have a: "adapt_str (codepoints ''Maple St'') = Inr (codepoints ''Maple St'')"
    by (simp add: adapt_str_def codepoints_def)
  have b: "fst (check_house_exists (codepoints ''Maple St'') (ready_world maple_db))
       = Inr (Some \<lparr>h_house_id = 1, h_house_name = codepoints ''Maple St''\<rparr>)"
    by (simp add: check_house_exists_def get_db_cursor_ready with_str_def a maple_db_def)
  from leave_house_route_last_member[OF r s n a] r s a b show ?thesis
    by blast
qed

section \<open>Leaving a house that keeps a member\<close>

text \<open>
  When a house has exactly two membership rows, of two different users, and one of them
  completes the leave-house route, the second \<open>is_last_member\<close> check of the route finds
  one row left and \<open>delete_house\<close> deletes the house: the other user's membership row,
  the tasks and the restrictions stay, and the house they point to is gone.
\<close>

theorem leave_house_route_deletes_occupied_house:
  assumes ready: "pool_ready w"
    and two: "filter (\<lambda>uh. uh_house_id uh = h) (user_houses (store w))
                = [\<lparr>uh_user_id = u, uh_house_id = h\<rparr>, \<lparr>uh_user_id = v, uh_house_id = h\<rparr>]
              \<or> filter (\<lambda>uh. uh_house_id uh = h) (user_houses (store w))
                = [\<lparr>uh_user_id = v, uh_house_id = h\<rparr>, \<lparr>uh_user_id = u, uh_house_id = h\<rparr>]"
    and other: "u \<noteq> v"
  shows "\<exists>w'. leave_house_route u h w = (Inr Json_ok, w')
     \<and> filter (\<lambda>uh. uh_house_id uh = h) (user_houses (store w'))
         = [\<lparr>uh_user_id = v, uh_house_id = h\<rparr>]
     \<and> houses (store w') = filter (\<lambda>x. h_house_id x \<noteq> h) (houses (store w))
     \<and> get_house_name_by_id h w' = (Inr None, w')
     \<and> tasks (store w') = tasks (store w)
     \<and> restrictions (store w') = restrictions (store w)"
proof -
  define d1 where "d1 = (store w)\<lparr>user_houses :=
      filter (\<lambda>uh. \<not> (uh_user_id uh = u \<and> uh_house_id uh = h)) (user_houses (store w))\<rparr>"
  define d2 where "d2 = d1\<lparr>houses := filter (\<lambda>x. h_house_id x \<noteq> h) (houses (store w))\<rparr>"
  define w1 where "w1 = w\<lparr>store := d1, commits := commits w @ [d1]\<rparr>"
  define w2 where "w2 = w\<lparr>store := d2, commits := commits w @ [d1, d2]\<rparr>"
  have r1: "pool_ready w1" and r2: "pool_ready w2"
    using ready by (simp_all add: w1_def w2_def)
  have len: "length (filter (\<lambda>uh. uh_house_id uh = h) (user_houses (store w))) = 2"
    using two by auto
  have left: "filter (\<lambda>uh. uh_house_id uh = h)
       (filter (\<lambda>uh. \<not> (uh_user_id uh = u \<and> uh_house_id uh = h)) (user_houses (store w)))
       = [\<lparr>uh_user_id = v, uh_house_id = h\<rparr>]"
  proof -
    let ?P = "\<lambda>uh. uh_house_id uh = h"
    let ?Q = "\<lambda>uh. \<not> (uh_user_id uh = u \<and> uh_house_id uh = h)"
    have "filter ?Q (filter ?P (user_houses (store w))) = [\<lparr>uh_user_id = v, uh_house_id = h\<rparr>]"
      using two
    proof (elim disjE)
      assume a: "filter ?P (user_houses (store w))
          = [\<lparr>uh_user_id = u, uh_house_id = h\<rparr>, \<lparr>uh_user_id = v, uh_house_id = h\<rparr>]"
      show ?thesis unfolding a using other by simp
    next
      assume a: "filter ?P (user_houses (store w))
          = [\<lparr>uh_user_id = v, uh_house_id = h\<rparr>, \<lparr>uh_user_id = u, uh_house_id = h\<rparr>]"
      show ?thesis unfolding a using other by simp
    qed
    then show ?thesis
      by (simp only: filter_filter_swap[of ?P ?Q])
  qed
  have s0: "is_last_member h w = (Inr False, w)"
    using ready len by (simp add: is_last_member_ready)
  have s1: "leave_house u h w = (Inr (), w1)"
    using ready left by (simp add: leave_house_def get_db_cursor_ready Let_def w1_def d1_def)
  have s2: "is_last_member h w1 = (Inr True, w1)"
    using r1 left by (simp add: is_last_member_ready w1_def d1_def)
  have s3: "delete_house h w1 = (Inr (), w2)"
    using r1 by (simp add: delete_house_def get_db_cursor_ready w1_def w2_def d2_def d1_def)
  have route: "leave_house_route u h w = (Inr Json_ok, w2)"
    using s0 s1 s2 s3
    by (simp add: leave_house_route_def bind_op_def return_op_def)
  have st: "store w2 = d2" by (simp add: w2_def)
  have g: "get_house_name_by_id h w2 = (Inr None, w2)"
    using r2
    by (simp add: get_house_name_by_id_def get_db_cursor_read st d2_def find_filter_other)
  have m: "filter (\<lambda>uh. uh_house_id uh = h) (user_houses (store w2))
         = [\<lparr>uh_user_id = v, uh_house_id = h\<rparr>]"
    using left by (simp add: st d2_def d1_def)
  have rest: "houses (store w2) = filter (\<lambda>x. h_house_id x \<noteq> h) (houses (store w))"
      "tasks (store w2) = tasks (store w)" "restrictions (store w2) = restrictions (store w)"
    by (simp_all add: st d2_def d1_def)
  from route m rest g show ?thesis by blast
qed

theorem leave_house_route_deletes_occupied_house_witness:
  "pool_ready (ready_world shared_db)
   \<and> filter (\<lambda>uh. uh_house_id uh = 1) (user_houses (store (ready_world shared_db)))
       = [\<lparr>uh_user_id = 1, uh_house_id = 1\<rparr>, \<lparr>uh_user_id = 2, uh_house_id = 1\<rparr>]
   \<and> (1::int) \<noteq> 2
   \<and> (\<exists>w'. leave_house_route 1 1 (ready_world shared_db) = (Inr Json_ok, w')
        \<and> filter (\<lambda>uh. uh_house_id uh = 1) (user_houses (store w'))
            = [\<lparr>uh_user_id = 2, uh_house_id = 1\<rparr>]
        \<and> get_house_name_by_id 1 w' = (Inr None, w')
        \<and> tasks (store w') = tasks (store (ready_world shared_db)))"
proof -
  have r: "pool_ready (ready_world shared_db)" by simp
  have t: "filter (\<lambda>uh. uh_house_id uh = 1) (user_houses (store (ready_world shared_db)))
       = [\<lparr>uh_user_id = 1, uh_house_id = 1\<rparr>, \<lparr>uh_user_id = 2, uh_house_id = 1\<rparr>]"
    by (simp add: shared_db_def maple_db_def)
  have n: "(1::int) \<noteq> 2" by simp
  from t have t': "filter (\<lambda>uh. uh_house_id uh = 1) (user_houses (store (ready_world shared_db)))
                = [\<lparr>uh_user_id = 1, uh_house_id = 1\<rparr>, \<lparr>uh_user_id = 2, uh_house_id = 1\<rparr>]
              \<or> filter (\<lambda>uh. uh_house_id uh = 1) (user_houses (store (ready_world shared_db)))
                = [\<lparr>uh_user_id = 2, uh_house_id = 1\<rparr>, \<lparr>uh_user_id = 1, uh_house_id = 1\<rparr>]"
    by blast
  from leave_house_route_deletes_occupied_house[OF r t' n] r t n show ?thesis
    by blast
qed

section \<open>What a transaction makes visible\<close>

lemma same_tables_rollback [simp]: "same_tables (rollback c d) c"
  by (simp add: same_tables_def)

lemma create_house_ready:
  assumes ready: "pool_ready w"
  shows "adapt_str (format_name nm) = Inl e \<Longrightarrow> create_house nm cid w = (Inl e, w)"
    and "adapt_str (format_name nm) = Inr (format_name nm) \<Longrightarrow>
         key_max (store w) < next_house_id (store w) \<Longrightarrow>
         create_house nm cid w = (Inl SequenceGeneratorLimitExceeded, w)"
    and "adapt_str (format_name nm) = Inr (format_name nm) \<Longrightarrow>
         next_house_id (store w) \<le> key_max (store w) \<Longrightarrow>
         unique_house_name (store w)
           \<and> (\<exists>x \<in> set (houses (store w)). h_house_name x = format_name nm) \<Longrightarrow>
         create_house nm cid w
           = (Inl UniqueViolation,
              w\<lparr>store := rollback (store w)
                   ((store w)\<lparr>next_house_id := next_house_id (store w) + 1\<rparr>)\<rparr>)"
    and "adapt_str (format_name nm) = Inr (format_name nm) \<Longrightarrow>
         next_house_id (store w) \<le> key_max (store w) \<Longrightarrow>
         \<not> (unique_house_name (store w)
              \<and> (\<exists>x \<in> set (houses (store w)). h_house_name x = format_name nm)) \<Longrightarrow>
         \<not> in_key_range (store w) cid \<Longrightarrow>
         create_house nm cid w
           = (Inl NumericValueOutOfRange,
              w\<lparr>store := rollback (store w)
                   ((store w)\<lparr>next_house_id := next_house_id (store w) + 1,
                      houses := houses (store w) @
                        [\<lparr>h_house_id = next_house_id (store w), h_house_name = format_name nm\<rparr>]\<rparr>)\<rparr>)"
    and "adapt_str (format_name nm) = Inr (format_name nm) \<Longrightarrow>
         next_house_id (store w) \<le> key_max (store w) \<Longrightarrow>
         \<not> (unique_house_name (store w)
              \<and> (\<exists>x \<in> set (houses (store w)). h_house_name x = format_name nm)) \<Longrightarrow>
         in_key_range (store w) cid \<Longrightarrow>
         \<exists>d. create_house nm cid w = (Inr (), w\<lparr>store := d, commits := commits w @ [d]\<rparr>)
            \<and> houses d = houses (store w)
                @ [\<lparr>h_house_id = next_house_id (store w), h_house_name = format_name nm\<rparr>]
            \<and> user_houses d = user_houses (store w)
                @ [\<lparr>uh_user_id = cid, uh_house_id = next_house_id (store w)\<rparr>]
            \<and> next_house_id d = next_house_id (store w) + 1"
  using ready
  by (auto simp: create_house_def get_db_cursor_ready Let_def with_str_def with_key_def
      in_key_range_def)

text \<open>
  Claim C2, against the code. When the sole member of house 1 leaves, the route commits
  three times. The first committed state has the task of the house deleted while its
  restriction, its membership row and the house itself are all still there: a state in
  which only some of the deletions have taken effect, visible to every other connection
  and left behind if the request stops there.
\<close>

theorem leave_house_route_partial_state_counterexample:
  "length (commits (snd (leave_house_route 1 1 (ready_world maple_db)))) = 3
   \<and> tasks (hd (commits (snd (leave_house_route 1 1 (ready_world maple_db))))) = []
   \<and> tasks maple_db \<noteq> []
   \<and> restrictions (hd (commits (snd (leave_house_route 1 1 (ready_world maple_db)))))
       = restrictions maple_db
   \<and> user_houses (hd (commits (snd (leave_house_route 1 1 (ready_world maple_db)))))
       = [\<lparr>uh_user_id = 1, uh_house_id = 1\<rparr>]
   \<and> houses (hd (commits (snd (leave_house_route 1 1 (ready_world maple_db)))))
       = [\<lparr>h_house_id = 1, h_house_name = codepoints ''Maple St''\<rparr>]
   \<and> user_houses (store (snd (leave_house_route 1 1 (ready_world maple_db)))) = []
   \<and> houses (store (snd (leave_house_route 1 1 (ready_world maple_db)))) = []"
  by (simp add: route_eval maple_db_def empty_db_def)

text \<open>
  Claim C2, amended. With a connection available, each data-access function is all or
  nothing in the tables: its statements are one transaction, committed once at its
  end, and an exception before the commit leaves every table, and what other
  connections have seen, as they were (a value taken from a serial sequence stays taken).
  In particular the delete-membership, count and delete-house-if-empty statements of
  \<open>leave_house\<close> become visible in one commit; and so do the two inserts of
  \<open>create_house\<close>, whose house row is rolled back when the insert of the membership
  fails. The leave-house route as a whole is a sequence of such units: when the house
  has exactly one membership row and it is the caller's, the route commits the deletion
  of the tasks, then the deletion of the restrictions, then \<open>leave_house\<close>, and in the
  two states in between the membership row is still there.
\<close>

theorem writes_commit_as_units:
  assumes ready: "pool_ready w"
  shows "(\<forall>(body :: 'a statements) e d. body (store w) = (Inl e, d) \<longrightarrow>
           (\<exists>w'. get_db_cursor True body w = (Inl e, w')
              \<and> same_tables (store w') (store w) \<and> commits w' = commits w))
     \<and> (\<forall>(body :: 'a statements) r d. body (store w) = (Inr r, d) \<longrightarrow>
           get_db_cursor True body w = (Inr r, w\<lparr>store := d, commits := commits w @ [d]\<rparr>))
     \<and> (\<exists>d. leave_house u h w = (Inr (), w\<lparr>store := d, commits := commits w @ [d]\<rparr>)
           \<and> user_houses d
               = filter (\<lambda>uh. \<not> (uh_user_id uh = u \<and> uh_house_id uh = h)) (user_houses (store w))
           \<and> houses d
               = (if filter (\<lambda>uh. uh_house_id uh = h) (user_houses d) = []
                  then filter (\<lambda>x. h_house_id x \<noteq> h) (houses (store w)) else houses (store w)))
     \<and> (\<forall>e. adapt_str (format_name nm) = Inl e \<longrightarrow> create_house nm cid w = (Inl e, w))
     \<and> (adapt_str (format_name nm) = Inr (format_name nm)
          \<and> key_max (store w) < next_house_id (store w)
          \<longrightarrow> create_house nm cid w = (Inl SequenceGeneratorLimitExceeded, w))
     \<and> (adapt_str (format_name nm) = Inr (format_name nm)
          \<and> next_house_id (store w) \<le> key_max (store w)
          \<and> unique_house_name (store w)
          \<and> (\<exists>x \<in> set (houses (store w)). h_house_name x = format_name nm)
          \<longrightarrow> (\<exists>w'. create_house nm cid w = (Inl UniqueViolation, w')
                \<and> same_tables (store w') (store w) \<and> commits w' = commits w
                \<and> next_house_id (store w') = next_house_id (store w) + 1))
     \<and> (adapt_str (format_name nm) = Inr (format_name nm)
          \<and> next_house_id (store w) \<le> key_max (store w)
          \<and> \<not> (unique_house_name (store w)
                \<and> (\<exists>x \<in> set (houses (store w)). h_house_name x = format_name nm))
          \<and> \<not> in_key_range (store w) cid
          \<longrightarrow> (\<exists>w'. create_house nm cid w = (Inl NumericValueOutOfRange, w')
                \<and> same_tables (store w') (store w) \<and> commits w' = commits w
                \<and> next_house_id (store w') = next_house_id (store w) + 1))
     \<and> (adapt_str (format_name nm) = Inr (format_name nm)
          \<and> next_house_id (store w) \<le> key_max (store w)
          \<and> \<not> (unique_house_name (store w)
                \<and> (\<exists>x \<in> set (houses (store w)). h_house_name x = format_name nm))
          \<and> in_key_range (store w) cid
          \<longrightarrow> (\<exists>d. create_house nm cid w = (Inr (), w\<lparr>store := d, commits := commits w @ [d]\<rparr>)
                \<and> houses d = houses (store w)
                    @ [\<lparr>h_house_id = next_house_id (store w), h_house_name = format_name nm\<rparr>]
                \<and> user_houses d = user_houses (store w)
                    @ [\<lparr>uh_user_id = cid, uh_house_id = next_house_id (store w)\<rparr>]))
     \<and> (filter (\<lambda>uh. uh_house_id uh = h) (user_houses (store w))
           = [\<lparr>uh_user_id = u, uh_house_id = h\<rparr>]
          \<longrightarrow> (\<exists>d1 d2 d3.
                 leave_house_route u h w
                   = (Inr Json_ok, w\<lparr>store := d3, commits := commits w @ [d1, d2, d3]\<rparr>)
               \<and> d1 = (store w)\<lparr>tasks := filter (\<lambda>t. t_house_id t \<noteq> h) (tasks (store w))\<rparr>
               \<and> d2 = d1\<lparr>restrictions := filter (\<lambda>r. r_house_id r \<noteq> h) (restrictions (store w))\<rparr>
               \<and> d3 = d2\<lparr>user_houses :=
                            filter (\<lambda>uh. \<not> (uh_user_id uh = u \<and> uh_house_id uh = h))
                              (user_houses (store w)),
                          houses := filter (\<lambda>x. h_house_id x \<noteq> h) (houses (store w))\<rparr>
               \<and> \<lparr>uh_user_id = u, uh_house_id = h\<rparr> \<in> set (user_houses d1)
               \<and> \<lparr>uh_user_id = u, uh_house_id = h\<rparr> \<in> set (user_houses d2)
               \<and> \<lparr>uh_user_id = u, uh_house_id = h\<rparr> \<notin> set (user_houses d3)))"
proof -
  have c1: "\<forall>(body :: 'a statements) e d. body (store w) = (Inl e, d) \<longrightarrow>
           (\<exists>w'. get_db_cursor True body w = (Inl e, w')
              \<and> same_tables (store w') (store w) \<and> commits w' = commits w)"
    using ready by (simp add: get_db_cursor_ready)
  have c2: "\<forall>(body :: 'a statements) r d. body (store w) = (Inr r, d) \<longrightarrow>
           get_db_cursor True body w = (Inr r, w\<lparr>store := d, commits := commits w @ [d]\<rparr>)"
    using ready by (simp add: get_db_cursor_ready)
  have c3: "\<exists>d. leave_house u h w = (Inr (), w\<lparr>store := d, commits := commits w @ [d]\<rparr>)
           \<and> user_houses d
               = filter (\<lambda>uh. \<not> (uh_user_id uh = u \<and> uh_house_id uh = h)) (user_houses (store w))
           \<and> houses d
               = (if filter (\<lambda>uh. uh_house_id uh = h) (user_houses d) = []
                  then filter (\<lambda>x. h_house_id x \<noteq> h) (houses (store w)) else houses (store w))"
    using leave_house_ready[OF ready, of u h] by blast
  have c4: "\<forall>e. adapt_str (format_name nm) = Inl e \<longrightarrow> create_house nm cid w = (Inl e, w)"
    using create_house_ready(1)[OF ready] by blast
  have c5: "adapt_str (format_name nm) = Inr (format_name nm)
          \<and> key_max (store w) < next_house_id (store w)
          \<longrightarrow> create_house nm cid w = (Inl SequenceGeneratorLimitExceeded, w)"
    using create_house_ready(2)[OF ready] by blast
  have c6: "adapt_str (format_name nm) = Inr (format_name nm)
          \<and> next_house_id (store w) \<le> key_max (store w)
          \<and> unique_house_name (store w)
          \<and> (\<exists>x \<in> set (houses (store w)). h_house_name x = format_name nm)
          \<longrightarrow> (\<exists>w'. create_house nm cid w = (Inl UniqueViolation, w')
                \<and> same_tables (store w') (store w) \<and> commits w' = commits w
                \<and> next_house_id (store w') = next_house_id (store w) + 1)"
  proof
    assume a: "adapt_str (format_name nm) = Inr (format_name nm)
          \<and> next_house_id (store w) \<le> key_max (store w)
          \<and> unique_house_name (store w)
          \<and> (\<exists>x \<in> set (houses (store w)). h_house_name x = format_name nm)"
    then have "create_house nm cid w
           = (Inl UniqueViolation,
              w\<lparr>store := rollback (store w)
                   ((store w)\<lparr>next_house_id := next_house_id (store w) + 1\<rparr>)\<rparr>)"
      by (intro create_house_ready(3)[OF ready]) simp_all
    then show "\<exists>w'. create_house nm cid w = (Inl UniqueViolation, w')
                \<and> same_tables (store w') (store w) \<and> commits w' = commits w
                \<and> next_house_id (store w') = next_house_id (store w) + 1"
      by (simp add: rollback_def same_tables_def)
  qed
  have c7: "adapt_str (format_name nm) = Inr (format_name nm)
          \<and> next_house_id (store w) \<le> key_max (store w)
          \<and> \<not> (unique_house_name (store w)
                \<and> (\<exists>x \<in> set (houses (store w)). h_house_name x = format_name nm))
          \<and> \<not> in_key_range (store w) cid
          \<longrightarrow> (\<exists>w'. create_house nm cid w = (Inl NumericValueOutOfRange, w')
                \<and> same_tables (store w') (store w) \<and> commits w' = commits w
                \<and> next_house_id (store w') = next_house_id (store w) + 1)"
  proof
    assume a: "adapt_str (format_name nm) = Inr (format_name nm)
          \<and> next_house_id (store w) \<le> key_max (store w)
          \<and> \<not> (unique_house_name (store w)
                \<and> (\<exists>x \<in> set (houses (store w)). h_house_name x = format_name nm))
          \<and> \<not> in_key_range (store w) cid"
    then have "create_house nm cid w
           = (Inl NumericValueOutOfRange,
              w\<lparr>store := rollback (store w)
                   ((store w)\<lparr>next_house_id := next_house_id (store w) + 1,
                      houses := houses (store w) @
                        [\<lparr>h_house_id = next_house_id (store w), h_house_name = format_name nm\<rparr>]\<rparr>)\<rparr>)"
      by (intro create_house_ready(4)[OF ready]) simp_all
    then show "\<exists>w'. create_house nm cid w = (Inl NumericValueOutOfRange, w')
                \<and> same_tables (store w') (store w) \<and> commits w' = commits w
                \<and> next_house_id (store w') = next_house_id (store w) + 1"
      by (simp add: rollback_def same_tables_def)
  qed
  have c8: "adapt_str (format_name nm) = Inr (format_name nm)
          \<and> next_house_id (store w) \<le> key_max (store w)
          \<and> \<not> (unique_house_name (store w)
                \<and> (\<exists>x \<in> set (houses (store w)). h_house_name x = format_name nm))
          \<and> in_key_range (store w) cid
          \<longrightarrow> (\<exists>d. create_house nm cid w = (Inr (), w\<lparr>store := d, commits := commits w @ [d]\<rparr>)
                \<and> houses d = houses (store w)
                    @ [\<lparr>h_house_id = next_house_id (store w), h_house_name = format_name nm\<rparr>]
                \<and> user_houses d = user_houses (store w)
                    @ [\<lparr>uh_user_id = cid, uh_house_id = next_house_id (store w)\<rparr>])"
  proof
    assume a: "adapt_str (format_name nm) = Inr (format_name nm)
          \<and> next_house_id (store w) \<le> key_max (store w)
          \<and> \<not> (unique_house_name (store w)
                \<and> (\<exists>x \<in> set (houses (store w)). h_house_name x = format_name nm))
          \<and> in_key_range (store w) cid"
    then have "\<exists>d. create_house nm cid w = (Inr (), w\<lparr>store := d, commits := commits w @ [d]\<rparr>)
            \<and> houses d = houses (store w)
                @ [\<lparr>h_house_id = next_house_id (store w), h_house_name = format_name nm\<rparr>]
            \<and> user_houses d = user_houses (store w)
                @ [\<lparr>uh_user_id = cid, uh_house_id = next_house_id (store w)\<rparr>]
            \<and> next_house_id d = next_house_id (store w) + 1"
      by (intro create_house_ready(5)[OF ready]) simp_all
    then show "\<exists>d. create_house nm cid w = (Inr (), w\<lparr>store := d, commits := commits w @ [d]\<rparr>)
                \<and> houses d = houses (store w)
                    @ [\<lparr>h_house_id = next_house_id (store w), h_house_name = format_name nm\<rparr>]
                \<and> user_houses d = user_houses (store w)
                    @ [\<lparr>uh_user_id = cid, uh_house_id = next_house_id (store w)\<rparr>]"
      by blast
  qed
  have c9: "filter (\<lambda>uh. uh_house_id uh = h) (user_houses (store w))
           = [\<lparr>uh_user_id = u, uh_house_id = h\<rparr>]
          \<longrightarrow> (\<exists>d1 d2 d3.
                 leave_house_route u h w
                   = (Inr Json_ok, w\<lparr>store := d3, commits := commits w @ [d1, d2, d3]\<rparr>)
               \<and> d1 = (store w)\<lparr>tasks := filter (\<lambda>t. t_house_id t \<noteq> h) (tasks (store w))\<rparr>
               \<and> d2 = d1\<lparr>restrictions := filter (\<lambda>r. r_house_id r \<noteq> h) (restrictions (store w))\<rparr>
               \<and> d3 = d2\<lparr>user_houses :=
                            filter (\<lambda>uh. \<not> (uh_user_id uh = u \<and> uh_house_id uh = h))
                              (user_houses (store w)),
                          houses := filter (\<lambda>x. h_house_id x \<noteq> h) (houses (store w))\<rparr>
               \<and> \<lparr>uh_user_id = u, uh_house_id = h\<rparr> \<in> set (user_houses d1)
               \<and> \<lparr>uh_user_id = u, uh_house_id = h\<rparr> \<in> set (user_houses d2)
               \<and> \<lparr>uh_user_id = u, uh_house_id = h\<rparr> \<notin> set (user_houses d3))"
  proof
    assume sole: "filter (\<lambda>uh. uh_house_id uh = h) (user_houses (store w))
           = [\<lparr>uh_user_id = u, uh_house_id = h\<rparr>]"
    from leave_house_route_sole_member[OF ready sole]
    obtain d1 d2 d3 where
      route: "leave_house_route u h w
           = (Inr Json_ok, w\<lparr>store := d3, commits := commits w @ [d1, d2, d3]\<rparr>)"
      and d1: "d1 = (store w)\<lparr>tasks := filter (\<lambda>t. t_house_id t \<noteq> h) (tasks (store w))\<rparr>"
      and d2: "d2 = d1\<lparr>restrictions := filter (\<lambda>r. r_house_id r \<noteq> h) (restrictions (store w))\<rparr>"
      and d3: "d3 = d2\<lparr>user_houses :=
                    filter (\<lambda>uh. \<not> (uh_user_id uh = u \<and> uh_house_id uh = h)) (user_houses (store w)),
                  houses := filter (\<lambda>x. h_house_id x \<noteq> h) (houses (store w))\<rparr>"
      by blast
    have "\<lparr>uh_user_id = u, uh_house_id = h\<rparr>
        \<in> set (filter (\<lambda>uh. uh_house_id uh = h) (user_houses (store w)))"
      unfolding sole by simp
    then have mem: "\<lparr>uh_user_id = u, uh_house_id = h\<rparr> \<in> set (user_houses (store w))"
      by simp
    have m1: "\<lparr>uh_user_id = u, uh_house_id = h\<rparr> \<in> set (user_houses d1)"
      using mem by (simp add: d1)
    have m2: "\<lparr>uh_user_id = u, uh_house_id = h\<rparr> \<in> set (user_houses d2)"
      using mem by (simp add: d1 d2)
    have m3: "\<lparr>uh_user_id = u, uh_house_id = h\<rparr> \<notin> set (user_houses d3)"
      by (simp add: d1 d2 d3)
    from route d1 d2 d3 m1 m2 m3
    show "\<exists>d1 d2 d3.
                 leave_house_route u h w
                   = (Inr Json_ok, w\<lparr>store := d3, commits := commits w @ [d1, d2, d3]\<rparr>)
               \<and> d1 = (store w)\<lparr>tasks := filter (\<lambda>t. t_house_id t \<noteq> h) (tasks (store w))\<rparr>
               \<and> d2 = d1\<lparr>restrictions := filter (\<lambda>r. r_house_id r \<noteq> h) (restrictions (store w))\<rparr>
               \<and> d3 = d2\<lparr>user_houses :=
                            filter (\<lambda>uh. \<not> (uh_user_id uh = u \<and> uh_house_id uh = h))
                              (user_houses (store w)),
                          houses := filter (\<lambda>x. h_house_id x \<noteq> h) (houses (store w))\<rparr>
               \<and> \<lparr>uh_user_id = u, uh_house_id = h\<rparr> \<in> set (user_houses d1)
               \<and> \<lparr>uh_user_id = u, uh_house_id = h\<rparr> \<in> set (user_houses d2)
               \<and> \<lparr>uh_user_id = u, uh_house_id = h\<rparr> \<notin> set (user_houses d3)"
      by blast
  qed
  from c1 c2 c3 c4 c5 c6 c7 c8 c9 show ?thesis
    by (intro conjI)
qed

theorem writes_commit_as_units_witness:
  "pool_ready (ready_world maple_db)
   \<and> filter (\<lambda>uh. uh_house_id uh = 1) (user_houses (store (ready_world maple_db)))
       = [\<lparr>uh_user_id = 1, uh_house_id = 1\<rparr>]
   \<and> adapt_str (format_name (codepoints ''Oak St'')) = Inr (format_name (codepoints ''Oak St''))
   \<and> next_house_id (store (ready_world maple_db)) \<le> key_max (store (ready_world maple_db))
   \<and> \<not> (unique_house_name (store (ready_world maple_db))
          \<and> (\<exists>x \<in> set (houses (store (ready_world maple_db))).
                h_house_name x = format_name (codepoints ''Oak St'')))
   \<and> in_key_range (store (ready_world maple_db)) 1
   \<and> \<not> in_key_range (store (ready_world maple_db)) 2147483648
   \<and> (\<exists>d. leave_house 1 1 (ready_world maple_db)
             = (Inr (), (ready_world maple_db)\<lparr>store := d, commits := commits (ready_world maple_db) @ [d]\<rparr>))
   \<and> (\<exists>d. create_house (codepoints ''Oak St'') 1 (ready_world maple_db)
             = (Inr (), (ready_world maple_db)\<lparr>store := d, commits := commits (ready_world maple_db) @ [d]\<rparr>))
   \<and> (\<exists>w'. create_house (codepoints ''Oak St'') 2147483648 (ready_world maple_db)
             = (Inl NumericValueOutOfRange, w')
        \<and> same_tables (store w') (store (ready_world maple_db))
        \<and> commits w' = commits (ready_world maple_db)
        \<and> next_house_id (store w') = next_house_id (store (ready_world maple_db)) + 1)
   \<and> (\<exists>d1 d2 d3. leave_house_route 1 1 (ready_world maple_db)
         = (Inr Json_ok, (ready_world maple_db)\<lparr>store := d3,
              commits := commits (ready_world maple_db) @ [d1, d2, d3]\<rparr>)
        \<and> \<lparr>uh_user_id = 1, uh_house_id = 1\<rparr> \<in> set (user_houses d1)
        \<and> \<lparr>uh_user_id = 1, uh_house_id = 1\<rparr> \<notin> set (user_houses d3))"
proof -
  have r: "pool_ready (ready_world maple_db)" by simp
  have s: "filter (\<lambda>uh. uh_house_id uh = 1) (user_houses (store (ready_world maple_db)))
       = [\<lparr>uh_user_id = 1, uh_house_id = 1\<rparr>]"
    by (simp add: maple_db_def)
  have f: "format_name (codepoints ''Oak St'') = codepoints ''Oak St''"
    by (simp add: format_name_collapse codepoints_def py_strip_def py_isspace_def)
  have a: "adapt_str (format_name (codepoints ''Oak St'')) = Inr (format_name (codepoints ''Oak St''))"
    unfolding f by (simp add: adapt_str_def codepoints_def)
  have q: "next_house_id (store (ready_world maple_db)) \<le> key_max (store (ready_world maple_db))"
    by (simp add: maple_db_def empty_db_def)
  have n: "\<not> (unique_house_name (store (ready_world maple_db))
          \<and> (\<exists>x \<in> set (houses (store (ready_world maple_db))).
                h_house_name x = format_name (codepoints ''Oak St'')))"
    by (simp add: maple_db_def empty_db_def)
  have k: "in_key_range (store (ready_world maple_db)) 1"
      "\<not> in_key_range (store (ready_world maple_db)) 2147483648"
    by (simp_all add: in_key_range_def maple_db_def empty_db_def)
  note t1 = writes_commit_as_units[OF r, of 1 1 "codepoints ''Oak St''" 1, where ?'a = unit]
  note t2 = writes_commit_as_units[OF r, of 1 1 "codepoints ''Oak St''" 2147483648, where ?'a = unit]
  from t1 a q n k(1) s
  have p1: "(\<exists>d. leave_house 1 1 (ready_world maple_db)
             = (Inr (), (ready_world maple_db)\<lparr>store := d, commits := commits (ready_world maple_db) @ [d]\<rparr>))"
      "(\<exists>d. create_house (codepoints ''Oak St'') 1 (ready_world maple_db)
             = (Inr (), (ready_world maple_db)\<lparr>store := d, commits := commits (ready_world maple_db) @ [d]\<rparr>))"
      "(\<exists>d1 d2 d3. leave_house_route 1 1 (ready_world maple_db)
         = (Inr Json_ok, (ready_world maple_db)\<lparr>store := d3,
              commits := commits (ready_world maple_db) @ [d1, d2, d3]\<rparr>)
        \<and> \<lparr>uh_user_id = 1, uh_house_id = 1\<rparr> \<in> set (user_houses d1)
        \<and> \<lparr>uh_user_id = 1, uh_house_id = 1\<rparr> \<notin> set (user_houses d3))"
    by blast+
  from t2 a q n k(2)
  have p2: "(\<exists>w'. create_house (codepoints ''Oak St'') 2147483648 (ready_world maple_db)
             = (Inl NumericValueOutOfRange, w')
        \<and> same_tables (store w') (store (ready_world maple_db))
        \<and> commits w' = commits (ready_world maple_db)
        \<and> next_house_id (store w') = next_house_id (store (ready_world maple_db)) + 1)"
    by blast
  from r s a q n k p1 p2 show ?thesis by blast
qed

section \<open>Creating a house under a name that is already taken\<close>

text \<open>
  Claim C1, on the code. \<open>user_home\<close> looks the stripped name up and \<open>create_house\<close>
  stores the formatted name. After \<open>Maple St\<close> has been created, a submission of
  \<open>Maple  St\<close> (two spaces) is not found by the check, and \<open>create_house\<close> inserts a
  second house named \<open>Maple St\<close>; under a schema with a unique house name the same
  request ends in the constraint error instead of the redirect.
\<close>

theorem user_home_duplicate_house:
  "py_strip (codepoints ''Maple  St'') = codepoints ''Maple  St''
   \<and> format_name (codepoints ''Maple  St'') = format_name (codepoints ''Maple St'')
   \<and> houses (store (snd (user_home (Some (codepoints ''Maple St'')) (Some 1) (ready_world empty_db))))
       = [\<lparr>h_house_id = 1, h_house_name = codepoints ''Maple St''\<rparr>]
   \<and> user_home (Some (codepoints ''Maple  St'')) (Some 1)
         (snd (user_home (Some (codepoints ''Maple St'')) (Some 1) (ready_world empty_db)))
       = (Inr (Redirect ''/user/home#load-section''),
          snd (user_home (Some (codepoints ''Maple  St'')) (Some 1)
            (snd (user_home (Some (codepoints ''Maple St'')) (Some 1) (ready_world empty_db)))))
   \<and> houses (store (snd (user_home (Some (codepoints ''Maple  St'')) (Some 1)
         (snd (user_home (Some (codepoints ''Maple St'')) (Some 1) (ready_world empty_db))))))
       = [\<lparr>h_house_id = 1, h_house_name = codepoints ''Maple St''\<rparr>,
          \<lparr>h_house_id = 2, h_house_name = codepoints ''Maple St''\<rparr>]
   \<and> fst (user_home (Some (codepoints ''Maple  St'')) (Some 1)
         (snd (user_home (Some (codepoints ''Maple St'')) (Some 1)
            (ready_world (empty_db\<lparr>unique_house_name := True\<rparr>)))))
       = Inl UniqueViolation"
proof -
  let ?n1 = "codepoints ''Maple St''" and ?n2 = "codepoints ''Maple  St''"
  let ?go = "Redirect ''/user/home#load-section''"
  have sp1: "py_strip ?n1 = ?n1" and sp2: "py_strip ?n2 = ?n2"
    by (simp_all add: py_strip_def py_isspace_def codepoints_def)
  have f1: "format_name ?n1 = ?n1" and f2: "format_name ?n2 = ?n1"
    unfolding format_name_collapse sp1 sp2 by (simp_all add: codepoints_def)
  have ne: "?n1 \<noteq> ?n2"
    by (simp add: codepoints_def)
  have ad: "adapt_str ?n1 = Inr ?n1" "adapt_str ?n2 = Inr ?n2"
    by (simp_all add: adapt_str_def codepoints_def)
  have ok1: "\<not> py_str_isspace ?n1" "?n1 \<noteq> []" "length ?n1 \<le> 20"
    by (simp_all add: py_str_isspace_def py_isspace_def codepoints_def)
  have ok2: "\<not> py_str_isspace ?n2" "?n2 \<noteq> []" "length ?n2 \<le> 20"
    by (simp_all add: py_str_isspace_def py_isspace_def codepoints_def)
  have first: "houses (store w) = [] \<Longrightarrow> next_house_id (store w) = 1 \<Longrightarrow>
      key_max (store w) = 2147483647 \<Longrightarrow> pool_ready w \<Longrightarrow>
      fst (user_home (Some ?n1) (Some 1) w) = Inr ?go
      \<and> pool_ready (snd (user_home (Some ?n1) (Some 1) w))
      \<and> houses (store (snd (user_home (Some ?n1) (Some 1) w)))
          = [\<lparr>h_house_id = 1, h_house_name = ?n1\<rparr>]
      \<and> next_house_id (store (snd (user_home (Some ?n1) (Some 1) w))) = 2
      \<and> key_max (store (snd (user_home (Some ?n1) (Some 1) w))) = 2147483647
      \<and> unique_house_name (store (snd (user_home (Some ?n1) (Some 1) w)))
          = unique_house_name (store w)" for w
    using ok1 ad
    by (simp add: user_home_def sp1 f1 bind_op_def return_op_def check_house_exists_def
        create_house_def get_db_cursor_ready Let_def with_str_def with_key_def in_key_range_def)
  have second: "houses (store w) = [\<lparr>h_house_id = 1, h_house_name = ?n1\<rparr>] \<Longrightarrow>
      next_house_id (store w) = 2 \<Longrightarrow> key_max (store w) = 2147483647 \<Longrightarrow> pool_ready w \<Longrightarrow>
      (\<not> unique_house_name (store w) \<longrightarrow>
         fst (user_home (Some ?n2) (Some 1) w) = Inr ?go
         \<and> houses (store (snd (user_home (Some ?n2) (Some 1) w)))
             = [\<lparr>h_house_id = 1, h_house_name = ?n1\<rparr>, \<lparr>h_house_id = 2, h_house_name = ?n1\<rparr>])
      \<and> (unique_house_name (store w) \<longrightarrow>
           fst (user_home (Some ?n2) (Some 1) w) = Inl UniqueViolation)" for w
    using ok2 ne ad
    by (simp add: user_home_def sp2 f2 bind_op_def return_op_def check_house_exists_def
        create_house_def get_db_cursor_ready Let_def with_str_def with_key_def in_key_range_def)
  have e: "houses (store (ready_world empty_db)) = []"
      "next_house_id (store (ready_world empty_db)) = 1"
      "key_max (store (ready_world empty_db)) = 2147483647"
      "\<not> unique_house_name (store (ready_world empty_db))"
    by (simp_all add: empty_db_def)
  have u: "houses (store (ready_world (empty_db\<lparr>unique_house_name := True\<rparr>))) = []"
      "next_house_id (store (ready_world (empty_db\<lparr>unique_house_name := True\<rparr>))) = 1"
      "key_max (store (ready_world (empty_db\<lparr>unique_house_name := True\<rparr>))) = 2147483647"
      "unique_house_name (store (ready_world (empty_db\<lparr>unique_house_name := True\<rparr>)))"
    by (simp_all add: empty_db_def)
  note a = first[OF e(1) e(2) e(3) pool_ready_ready_world]
  note b = first[OF u(1) u(2) u(3) pool_ready_ready_world]
  from a have a2: "houses (store (snd (user_home (Some ?n1) (Some 1) (ready_world empty_db))))
        = [\<lparr>h_house_id = 1, h_house_name = ?n1\<rparr>]"
      "next_house_id (store (snd (user_home (Some ?n1) (Some 1) (ready_world empty_db)))) = 2"
      "key_max (store (snd (user_home (Some ?n1) (Some 1) (ready_world empty_db)))) = 2147483647"
      "pool_ready (snd (user_home (Some ?n1) (Some 1) (ready_world empty_db)))"
      "\<not> unique_house_name (store (snd (user_home (Some ?n1) (Some 1) (ready_world empty_db))))"
    using e(4) by simp_all
  from b have b2: "houses (store (snd (user_home (Some ?n1) (Some 1)
          (ready_world (empty_db\<lparr>unique_house_name := True\<rparr>)))))
        = [\<lparr>h_house_id = 1, h_house_name = ?n1\<rparr>]"
      "next_house_id (store (snd (user_home (Some ?n1) (Some 1)
          (ready_world (empty_db\<lparr>unique_house_name := True\<rparr>))))) = 2"
      "key_max (store (snd (user_home (Some ?n1) (Some 1)
          (ready_world (empty_db\<lparr>unique_house_name := True\<rparr>))))) = 2147483647"
      "pool_ready (snd (user_home (Some ?n1) (Some 1)
          (ready_world (empty_db\<lparr>unique_house_name := True\<rparr>))))"
      "unique_house_name (store (snd (user_home (Some ?n1) (Some 1)
          (ready_world (empty_db\<lparr>unique_house_name := True\<rparr>)))))"
    using u(4) by simp_all
  note c = second[OF a2(1) a2(2) a2(3) a2(4)]
  note d = second[OF b2(1) b2(2) b2(3) b2(4)]
  have r: "user_home (Some ?n2) (Some 1) (snd (user_home (Some ?n1) (Some 1) (ready_world empty_db)))
      = (Inr ?go, snd (user_home (Some ?n2) (Some 1)
            (snd (user_home (Some ?n1) (Some 1) (ready_world empty_db)))))"
    using c a2(5) by (simp add: prod_eq_iff)
  show ?thesis
    using sp2 f1 f2 a2(1) r c a2(5) d b2(5) by simp
qed

end
